theory Spec2Isabelle
  imports Complex_Main "HOL-Library.AList" "HOL-Library.Product_Lexorder"
begin

section \<open>Python values used by the chunkers\<close>

text \<open>
  Strings are ASCII character lists. The character classes below are Python's
  \<^verbatim>\<open>str.isspace\<close>, \<^verbatim>\<open>str.isalnum\<close> and
  \<^verbatim>\<open>str.lower\<close> on the ASCII range.
\<close>

definition isspace :: "char \<Rightarrow> bool" where
  "isspace c = (let n = (of_char c :: nat) in (9 \<le> n \<and> n \<le> 13) \<or> (28 \<le> n \<and> n \<le> 32))"

definition isalnum :: "char \<Rightarrow> bool" where
  "isalnum c = (let n = (of_char c :: nat) in
     (48 \<le> n \<and> n \<le> 57) \<or> (65 \<le> n \<and> n \<le> 90) \<or> (97 \<le> n \<and> n \<le> 122))"

definition lower_char :: "char \<Rightarrow> char" where
  "lower_char c = (let n = (of_char c :: nat) in if 65 \<le> n \<and> n \<le> 90 then char_of (n + 32) else c)"

definition lower :: "string \<Rightarrow> string" where
  "lower s = map lower_char s"

definition strip :: "string \<Rightarrow> string" where
  "strip s = rev (dropWhile isspace (rev (dropWhile isspace s)))"

text \<open>\<^verbatim>\<open>sep.join(parts)\<close>.\<close>

fun join :: "string \<Rightarrow> string list \<Rightarrow> string" where
  "join sep [] = []"
| "join sep [x] = x"
| "join sep (x # y # ys) = x @ sep @ join sep (y # ys)"

text \<open>\<^verbatim>\<open>str(n)\<close> for a non-negative and for an arbitrary integer.\<close>

fun str_nat :: "nat \<Rightarrow> string" where
  "str_nat n = (if n < 10 then [''0123456789'' ! n]
                else str_nat (n div 10) @ [''0123456789'' ! (n mod 10)])"

declare str_nat.simps [simp del]

definition str_int :: "int \<Rightarrow> string" where
  "str_int i = (if i < 0 then CHR ''-'' # str_nat (nat (- i)) else str_nat (nat i))"

text \<open>
  A number held in a Python list: \<^verbatim>\<open>0\<close> stays an \<^verbatim>\<open>int\<close>, the result
  of \<^verbatim>\<open>float(v)\<close> is a \<^verbatim>\<open>float\<close>. Floats are modelled by their exact
  rational value.
\<close>

datatype pynum = PyInt int | PyFloat rat

fun num_val :: "pynum \<Rightarrow> rat" where
  "num_val (PyInt i) = of_int i"
| "num_val (PyFloat r) = r"

text \<open>A metadata value: what a JSON payload or a chunk's metadata dict can hold.\<close>

datatype mval =
    MNone
  | MBool bool
  | MInt int
  | MFloat rat
  | MStr string
  | MList "mval list"
  | MDict "(string \<times> mval) list"

fun mval_of_num :: "pynum \<Rightarrow> mval" where
  "mval_of_num (PyInt i) = MInt i"
| "mval_of_num (PyFloat r) = MFloat r"

text \<open>
  A dict is an association list in insertion order; \<^verbatim>\<open>d[k] = v\<close> and the
  literal \<^verbatim>\<open>{**d, k: v}\<close> are \<^const>\<open>AList.update\<close> (an existing key keeps
  its place), \<^verbatim>\<open>d.get(k)\<close> is \<^const>\<open>map_of\<close>.
\<close>

type_synonym metadata = "(string \<times> mval) list"

text \<open>
  The value under which Python hashes and compares a dict key or a set member:
  \<^verbatim>\<open>True == 1 == 1.0\<close>, and a list or a dict is unhashable
  (\<^verbatim>\<open>TypeError\<close>, here \<^const>\<open>None\<close>).
\<close>

fun dict_key :: "mval \<Rightarrow> mval option" where
  "dict_key MNone = Some MNone"
| "dict_key (MBool b) = Some (MInt (if b then 1 else 0))"
| "dict_key (MInt i) = Some (MInt i)"
| "dict_key (MFloat r) = Some (if of_int \<lfloor>r\<rfloor> = r then MInt \<lfloor>r\<rfloor> else MFloat r)"
| "dict_key (MStr s) = Some (MStr s)"
| "dict_key (MList xs) = None"
| "dict_key (MDict kvs) = None"

datatype py_error = KeyError | ValueError | TypeError | AttributeError | ClientError

record Document =
  page_content :: string
  metadata :: metadata

text \<open>
  Library functions whose results only appear inside rendered text or depend on the
  interpreter are parameters of the model:
  \<^item> \<open>json_dumps\<close>: \<^verbatim>\<open>json.dumps(records, indent=2)\<close>;
  \<^item> \<open>repr_float\<close>, \<open>repr_str\<close>: \<^verbatim>\<open>repr\<close> of a float and of a str;
  \<^item> \<open>set_iter\<close>: the iteration order of \<^verbatim>\<open>set(xs)\<close>;
  \<^item> \<open>py_float\<close>: \<^verbatim>\<open>float(s)\<close>, \<^const>\<open>None\<close> for \<^verbatim>\<open>ValueError\<close>;
  \<^item> \<open>to_numeric\<close>: what \<^verbatim>\<open>pd.to_numeric(errors='coerce')\<close> makes of one cell,
    \<^const>\<open>None\<close> for NaN;
  \<^item> \<open>split_text\<close>: the pieces \<^verbatim>\<open>RecursiveCharacterTextSplitter\<close> cuts a text
    into.
\<close>

record py_lib =
  json_dumps :: "(string \<times> string option) list list \<Rightarrow> string"
  repr_float :: "rat \<Rightarrow> string"
  repr_str :: "string \<Rightarrow> string"
  set_iter :: "string list \<Rightarrow> string list"
  py_float :: "string \<Rightarrow> rat option"
  to_numeric :: "string \<Rightarrow> rat option"
  split_text :: "string \<Rightarrow> string list"

section \<open>Parsed HTML (BeautifulSoup)\<close>

text \<open>
  The tree \<^verbatim>\<open>BeautifulSoup(html, 'html.parser')\<close> returns: a tag with its name
  and children, or a text node. \<^verbatim>\<open>find_all\<close> searches the descendants in
  document order, \<^verbatim>\<open>find\<close> returns the first hit, and
  \<^verbatim>\<open>get_text(strip=True)\<close> joins the stripped, non-empty text nodes.
\<close>

datatype html_node = Tag string "html_node list" | NavigableString string

fun descendants :: "html_node \<Rightarrow> html_node list" where
  "descendants (NavigableString s) = []"
| "descendants (Tag n cs) = concat (map (\<lambda>c. c # descendants c) cs)"

fun has_name :: "string list \<Rightarrow> html_node \<Rightarrow> bool" where
  "has_name names (Tag n cs) = (n \<in> set names)"
| "has_name names (NavigableString s) = False"

definition find_all :: "string list \<Rightarrow> html_node \<Rightarrow> html_node list" where
  "find_all names node = filter (has_name names) (descendants node)"

definition find_tag :: "string \<Rightarrow> html_node \<Rightarrow> html_node option" where
  "find_tag name node = (case find_all [name] node of [] \<Rightarrow> None | t # _ \<Rightarrow> Some t)"

fun all_strings :: "html_node \<Rightarrow> string list" where
  "all_strings (NavigableString s) = [s]"
| "all_strings (Tag n cs) = concat (map all_strings cs)"

definition get_text_strip :: "html_node \<Rightarrow> string" where
  "get_text_strip node = concat (filter (\<lambda>s. s \<noteq> []) (map strip (all_strings node)))"

section \<open>Table decomposition\<close>

text \<open>
  The dict \<^verbatim>\<open>table_data\<close>: a key that is absent is \<^const>\<open>None\<close>. A record
  of \<^verbatim>\<open>records\<close> maps a column name to the cell, \<^const>\<open>None\<close> for JSON null.
\<close>

type_synonym json_record = "(string \<times> string option) list"

datatype pd_error = ColumnCountMismatch nat nat | ColumnsNotUnique

record table_data =
  headers :: "string list option"
  rows :: "string list list option"
  records :: "json_record list option"
  columns :: "(string \<times> string list) list option"
  statistics :: "(string \<times> (string \<times> rat) list) list option"
  error :: "pd_error option"

text \<open>
  \<^verbatim>\<open>json.loads(pd.DataFrame(rows, columns=cols).to_json(orient='records'))\<close>.
  The frame is as wide as the longest row and shorter rows are filled with missing
  values; without column names the columns are numbered from 0. The constructor raises
  when the number of names differs from the width of the data, and
  \<^verbatim>\<open>to_json\<close> raises when two columns share a name.
\<close>

definition frame_width :: "string list list \<Rightarrow> nat" where
  "frame_width rws = fold max (map length rws) 0"

definition frame_row :: "string list \<Rightarrow> nat \<Rightarrow> string list \<Rightarrow> json_record" where
  "frame_row cols w row = zip cols (map Some row @ replicate (w - length row) None)"

definition DataFrame_records :: "string list list \<Rightarrow> string list option \<Rightarrow> pd_error + json_record list" where
  "DataFrame_records rws cols =
     (let w = frame_width rws in
      case cols of
        None \<Rightarrow> Inr (map (frame_row (map str_nat [0..<w]) w) rws)
      | Some names \<Rightarrow>
          if rws \<noteq> [] \<and> length names \<noteq> w then Inl (ColumnCountMismatch (length names) w)
          else if \<not> distinct names then Inl ColumnsNotUnique
          else Inr (map (frame_row names w) rws))"

text \<open>\<^verbatim>\<open>SemanticChunker.extract_table_from_html\<close> (semantic.py, lines 48-90).\<close>

definition row_cells :: "html_node \<Rightarrow> string list" where
  "row_cells tr = map get_text_strip (find_all [''td'', ''th''] tr)"

definition extract_headers :: "html_node \<Rightarrow> string list" where
  "extract_headers table_element =
     (case find_tag ''thead'' table_element of
        None \<Rightarrow> []
      | Some header_row \<Rightarrow> map get_text_strip (find_all [''th'', ''td''] header_row))"

definition extract_rows :: "html_node \<Rightarrow> string list list" where
  "extract_rows table_element =
     filter (\<lambda>row. row \<noteq> [] \<and> row \<noteq> extract_headers table_element)
       (map row_cells (find_all [''tr''] table_element))"

definition extract_table_from_html :: "html_node \<Rightarrow> table_data" where
  "extract_table_from_html table_element =
     (let hdrs = extract_headers table_element;
          rws = extract_rows table_element
      in case DataFrame_records rws (if hdrs \<noteq> [] then Some hdrs else None) of
           Inr recs \<Rightarrow>
             \<lparr>headers = Some hdrs, rows = Some rws, records = Some recs,
              columns = None, statistics = None, error = None\<rparr>
         | Inl e \<Rightarrow>
             \<lparr>headers = Some hdrs, rows = Some rws, records = None,
              columns = None, statistics = None, error = Some e\<rparr>)"

text \<open>
  The first \<^verbatim>\<open>SemanticChunker.process_table\<close> (semantic.py, lines 92-179), the
  one that takes a BeautifulSoup element. The class body defines a second method of the
  same name further down (lines 500-538), which is the one bound to the attribute; the
  first is kept here under the name \<open>process_table_html\<close>.
\<close>

definition max_cols :: "string list list \<Rightarrow> nat" where
  "max_cols rws = (case rws of [] \<Rightarrow> 0 | r # rs \<Rightarrow> fold max (map length rs) (length r))"

definition padded_rows :: "string list list \<Rightarrow> string list list" where
  "padded_rows rws = map (\<lambda>row. row @ replicate (max_cols rws - length row) []) rws"

definition default_columns :: "nat \<Rightarrow> string list" where
  "default_columns n = map (\<lambda>i. ''Column_'' @ str_nat (i + 1)) [0..<n]"

definition frame_columns :: "string list \<Rightarrow> string list list \<Rightarrow> string list" where
  "frame_columns hdrs rws =
     (if hdrs \<noteq> [] \<and> length hdrs = max_cols rws then hdrs else default_columns (max_cols rws))"

text \<open>
  The statistics of one column: the cells are coerced, the cells that do not coerce
  are missing, and pandas' \<^verbatim>\<open>min\<close>, \<^verbatim>\<open>max\<close>, \<^verbatim>\<open>mean\<close> and
  \<^verbatim>\<open>sum\<close> skip the missing ones. A column whose cells are all missing gets no
  entry.
\<close>

definition series_stats :: "rat option list \<Rightarrow> (string \<times> rat) list option" where
  "series_stats numeric_series =
     (case List.map_filter id numeric_series of
        [] \<Rightarrow> None
      | v # vs \<Rightarrow>
          Some [(''min'', fold min vs v),
                (''max'', fold max vs v),
                (''mean'', sum_list (v # vs) / of_nat (length (v # vs))),
                (''sum'', sum_list (v # vs))])"

definition column_cells :: "string list list \<Rightarrow> nat \<Rightarrow> string list" where
  "column_cells rws j = map (\<lambda>row. row ! j) rws"

definition frame_statistics :: "py_lib \<Rightarrow> string list \<Rightarrow> string list list \<Rightarrow> (string \<times> (string \<times> rat) list) list" where
  "frame_statistics L cols rws =
     List.map_filter
       (\<lambda>j. map_option (\<lambda>st. (cols ! j, st))
              (series_stats (map (to_numeric L) (column_cells rws j))))
       [0..<length cols]"

record table_document =
  content :: string
  doc_metadata :: metadata
  doc_table_data :: table_data

definition process_table_html :: "py_lib \<Rightarrow> html_node \<Rightarrow> metadata \<Rightarrow> table_document" where
  "process_table_html L table_element md =
     (let table_data = extract_table_from_html table_element;
          hdrs = (case headers table_data of Some h \<Rightarrow> h | None \<Rightarrow> []);
          rws = (case rows table_data of Some r \<Rightarrow> r | None \<Rightarrow> []);
          text_parts = (if hdrs \<noteq> [] then [''Table Headers: '' @ join '' | '' hdrs] else [])
                       @ [CHR 0x0A # ''Table Data:''];
          cols = frame_columns hdrs rws;
          table_data' =
            (case DataFrame_records (padded_rows rws) (Some cols) of
               Inr recs \<Rightarrow>
                 table_data\<lparr>records := Some recs,
                            statistics := Some (frame_statistics L cols (padded_rows rws))\<rparr>
             | Inl e \<Rightarrow> table_data)
      in \<lparr>content = join [CHR 0x0A] (text_parts @ map (join '' | '') (padded_rows rws)),
          doc_metadata = AList.update ''chunking_type'' (MStr ''semantic'')
                           (AList.update ''type'' (MStr ''table'') md),
          doc_table_data = table_data'\<rparr>)"

section \<open>Multi-view table chunks\<close>

text \<open>\<^verbatim>\<open>SemanticChunker.create_table_chunks\<close> (semantic.py, lines 302-498).\<close>

definition NL :: string where
  "NL = [CHR 0x0A]"

definition with_keys :: "metadata \<Rightarrow> (string \<times> mval) list \<Rightarrow> metadata" where
  "with_keys md kvs = fold (\<lambda>kv. AList.update (fst kv) (snd kv)) kvs md"

definition base_metadata :: "metadata \<Rightarrow> metadata" where
  "base_metadata md = with_keys md [(''type'', MStr ''table''), (''chunking_strategy'', MStr ''semantic'')]"

definition readable_content :: "table_data \<Rightarrow> string" where
  "readable_content td =
     (let c0 = ''TABLE:'' @ NL;
          c1 = (case headers td of
                  Some (h # hs) \<Rightarrow>
                    (let c = c0 @ join '' | '' (h # hs) @ NL
                     in c @ replicate (length c - 1) CHR ''-'' @ NL)
                | _ \<Rightarrow> c0)
      in case rows td of
           Some rws \<Rightarrow> c1 @ concat (map (\<lambda>row. join '' | '' row @ NL) rws)
         | None \<Rightarrow> c1)"

definition readable_chunk :: "table_data \<Rightarrow> metadata \<Rightarrow> Document" where
  "readable_chunk td base =
     \<lparr>page_content = readable_content td,
      metadata = with_keys base [(''table_format'', MStr ''readable''),
                                 (''table_purpose'', MStr ''display'')]\<rparr>"

definition json_chunk :: "py_lib \<Rightarrow> json_record list \<Rightarrow> metadata \<Rightarrow> Document" where
  "json_chunk L recs base =
     (let json_str = json_dumps L recs in
      \<lparr>page_content = ''TABLE DATA (JSON FORMAT):'' @ NL @ json_str,
       metadata = with_keys base
         [(''table_format'', MStr ''json''),
          (''table_purpose'', MStr ''query''),
          (''json_data'', MStr json_str),
          (''record_count'', MInt (int (length recs))),
          (''fields'', MList (case recs of [] \<Rightarrow> [] | r # _ \<Rightarrow> map (\<lambda>kv. MStr (fst kv)) r))]\<rparr>)"

text \<open>
  \<^verbatim>\<open>[float(v) if v and v.strip() else 0 for v in col_values if v]\<close>:
  \<^const>\<open>None\<close> when some \<^verbatim>\<open>float(v)\<close> raises \<^verbatim>\<open>ValueError\<close>.
\<close>

definition numeric_values :: "py_lib \<Rightarrow> string list \<Rightarrow> pynum list option" where
  "numeric_values L col_values =
     those (map (\<lambda>v. if strip v \<noteq> [] then map_option PyFloat (py_float L v) else Some (PyInt 0))
                (filter (\<lambda>v. v \<noteq> []) col_values))"

fun py_add :: "pynum \<Rightarrow> pynum \<Rightarrow> pynum" where
  "py_add (PyInt a) (PyInt b) = PyInt (a + b)"
| "py_add a b = PyFloat (num_val a + num_val b)"

definition py_sum :: "pynum list \<Rightarrow> pynum" where
  "py_sum xs = fold (\<lambda>x acc. py_add acc x) xs (PyInt 0)"

definition py_min :: "pynum \<Rightarrow> pynum list \<Rightarrow> pynum" where
  "py_min x xs = fold (\<lambda>y m. if num_val y < num_val m then y else m) xs x"

definition py_max :: "pynum \<Rightarrow> pynum list \<Rightarrow> pynum" where
  "py_max x xs = fold (\<lambda>y m. if num_val m < num_val y then y else m) xs x"

definition py_avg :: "pynum list \<Rightarrow> pynum" where
  "py_avg xs = PyFloat (num_val (py_sum xs) / of_nat (length xs))"

definition str_num :: "py_lib \<Rightarrow> pynum \<Rightarrow> string" where
  "str_num L x = (case x of PyInt i \<Rightarrow> str_int i | PyFloat r \<Rightarrow> repr_float L r)"

definition repr_list :: "string list \<Rightarrow> string" where
  "repr_list items = ''['' @ join '', '' items @ '']''"

definition numeric_column_chunk :: "py_lib \<Rightarrow> string \<Rightarrow> pynum \<Rightarrow> pynum list \<Rightarrow> metadata \<Rightarrow> Document" where
  "numeric_column_chunk L col_name v vs base =
     (let nums = v # vs in
      \<lparr>page_content =
         ''COLUMN DATA: '' @ col_name @ NL @ NL
         @ ''Values: '' @ repr_list (map (str_num L) nums) @ NL
         @ ''Min: '' @ str_num L (py_min v vs) @ NL
         @ ''Max: '' @ str_num L (py_max v vs) @ NL
         @ ''Average: '' @ str_num L (py_avg nums) @ NL
         @ ''Sum: '' @ str_num L (py_sum nums) @ NL,
       metadata = with_keys base
         [(''table_format'', MStr ''column''),
          (''table_purpose'', MStr ''analysis''),
          (''column_name'', MStr col_name),
          (''is_numeric'', MBool True),
          (''column_stats'', MDict
             [(''min'', mval_of_num (py_min v vs)),
              (''max'', mval_of_num (py_max v vs)),
              (''avg'', mval_of_num (py_avg nums)),
              (''sum'', mval_of_num (py_sum nums)),
              (''count'', MInt (int (length nums)))])]\<rparr>)"

definition text_column_chunk :: "py_lib \<Rightarrow> string \<Rightarrow> string list \<Rightarrow> metadata \<Rightarrow> Document" where
  "text_column_chunk L col_name col_values base =
     (let present = filter (\<lambda>v. v \<noteq> []) col_values in
      \<lparr>page_content =
         ''COLUMN DATA: '' @ col_name @ NL @ NL
         @ ''Values: '' @ repr_list (map (repr_str L) col_values) @ NL
         @ ''Unique values: '' @ str_nat (length (remdups present)) @ NL,
       metadata = with_keys base
         [(''table_format'', MStr ''column''),
          (''table_purpose'', MStr ''analysis''),
          (''column_name'', MStr col_name),
          (''is_numeric'', MBool False),
          (''unique_values'', MList (map MStr (take 10 (set_iter L present))))]\<rparr>)"

definition column_chunks :: "py_lib \<Rightarrow> string \<Rightarrow> string list \<Rightarrow> metadata \<Rightarrow> Document list" where
  "column_chunks L col_name col_values base =
     (case numeric_values L col_values of
        Some [] \<Rightarrow> []
      | Some (v # vs) \<Rightarrow> [numeric_column_chunk L col_name v vs base]
      | None \<Rightarrow>
          if \<exists>v \<in> set col_values. v \<noteq> []
          then [text_column_chunk L col_name col_values base] else [])"

definition json_and_column_chunks :: "py_lib \<Rightarrow> table_data \<Rightarrow> metadata \<Rightarrow> Document list" where
  "json_and_column_chunks L td base =
     (case records td of
        Some (r # rs) \<Rightarrow>
          json_chunk L (r # rs) base
          # (case columns td of
               Some cols \<Rightarrow> concat (map (\<lambda>c. column_chunks L (fst c) (snd c) base) cols)
             | None \<Rightarrow> [])
      | _ \<Rightarrow> [])"

definition statistics_content :: "py_lib \<Rightarrow> (string \<times> (string \<times> rat) list) list \<Rightarrow> string" where
  "statistics_content L stats =
     ''TABLE STATISTICS:'' @ NL
     @ concat (map (\<lambda>cs. NL @ fst cs @ '':'' @ NL
                       @ concat (map (\<lambda>nv. ''  - '' @ fst nv @ '': '' @ repr_float L (snd nv) @ NL)
                                     (snd cs)))
                   stats)"

definition statistics_mval :: "(string \<times> (string \<times> rat) list) list \<Rightarrow> mval" where
  "statistics_mval stats =
     MDict (map (\<lambda>cs. (fst cs, MDict (map (\<lambda>nv. (fst nv, MFloat (snd nv))) (snd cs)))) stats)"

definition statistics_chunks :: "py_lib \<Rightarrow> table_data \<Rightarrow> metadata \<Rightarrow> Document list" where
  "statistics_chunks L td base =
     (case statistics td of
        Some (s # ss) \<Rightarrow>
          [\<lparr>page_content = statistics_content L (s # ss),
            metadata = with_keys base
              [(''table_format'', MStr ''statistics''),
               (''table_purpose'', MStr ''analysis''),
               (''statistics'', statistics_mval (s # ss))]\<rparr>]
      | _ \<Rightarrow> [])"

definition description_stats :: "py_lib \<Rightarrow> (string \<times> (string \<times> rat) list) list \<Rightarrow> string" where
  "description_stats L stats =
     (if stats = [] then []
      else ''The table contains numeric data in columns: '' @ join '', '' (map fst stats) @ ''. ''
           @ concat (map (\<lambda>cs.
                 case (map_of (snd cs) ''sum'', map_of (snd cs) ''mean'') of
                   (Some sm, Some mn) \<Rightarrow>
                     ''The sum of '' @ fst cs @ '' is '' @ repr_float L sm
                     @ '' with an average of '' @ repr_float L mn @ ''. ''
                 | _ \<Rightarrow> [])
               stats))"

definition description_chunks :: "py_lib \<Rightarrow> table_data \<Rightarrow> metadata \<Rightarrow> Document list" where
  "description_chunks L td base =
     (case (headers td, rows td) of
        (Some hdrs, Some rws) \<Rightarrow>
          [\<lparr>page_content =
              ''This table contains '' @ str_nat (length rws) @ '' rows and ''
              @ str_nat (length hdrs) @ '' columns. ''
              @ ''The columns are: '' @ join '', '' hdrs @ ''. ''
              @ (case statistics td of Some stats \<Rightarrow> description_stats L stats | None \<Rightarrow> []),
            metadata = with_keys base
              [(''table_format'', MStr ''description''),
               (''table_purpose'', MStr ''overview'')]\<rparr>]
      | _ \<Rightarrow> [])"

text \<open>\<^verbatim>\<open>range(i, n, step)\<close> for a positive step.\<close>

function range_step :: "nat \<Rightarrow> nat \<Rightarrow> nat \<Rightarrow> nat list" where
  "range_step i n step = (if step = 0 \<or> n \<le> i then [] else i # range_step (i + step) n step)"
  by pat_completeness auto
termination
  by (relation "measure (\<lambda>(i, n, step). n - i)") auto

declare range_step.simps [simp del]

definition row_chunk_size :: nat where
  "row_chunk_size = 5"

definition row_value :: "json_record \<Rightarrow> string \<Rightarrow> string" where
  "row_value row_dict h =
     (case map_of row_dict h of None \<Rightarrow> [] | Some None \<Rightarrow> ''None'' | Some (Some s) \<Rightarrow> s)"

definition row_range :: "nat \<Rightarrow> json_record list \<Rightarrow> string" where
  "row_range i row_group = str_nat (i + 1) @ ''-'' @ str_nat (i + length row_group)"

definition row_group_chunk :: "py_lib \<Rightarrow> json_record list \<Rightarrow> string list \<Rightarrow> metadata \<Rightarrow> nat \<Rightarrow> Document" where
  "row_group_chunk L recs hdrs base i =
     (let row_group = take row_chunk_size (drop i recs);
          c0 = ''TABLE ROWS '' @ str_nat (i + 1) @ '' to '' @ str_nat (i + length row_group)
               @ '':'' @ NL @ NL;
          c1 = (if hdrs \<noteq> []
                then (let c = c0 @ join '' | '' hdrs @ NL
                      in c @ replicate (length c) CHR ''-'' @ NL)
                else c0);
          c2 = c1 @ concat (map (\<lambda>row_dict. join '' | '' (map (row_value row_dict) hdrs) @ NL) row_group);
          row_json = json_dumps L row_group
      in \<lparr>page_content = c2 @ NL @ ''JSON:'' @ NL @ row_json,
          metadata = with_keys base
            [(''table_format'', MStr ''row_group''),
             (''table_purpose'', MStr ''query''),
             (''row_range'', MStr (row_range i row_group)),
             (''json_data'', MStr row_json)]\<rparr>)"

definition row_group_chunks :: "py_lib \<Rightarrow> json_record list \<Rightarrow> string list \<Rightarrow> metadata \<Rightarrow> Document list" where
  "row_group_chunks L recs hdrs base =
     map (row_group_chunk L recs hdrs base) (range_step 0 (length recs) row_chunk_size)"

definition create_table_chunks :: "py_lib \<Rightarrow> table_data \<Rightarrow> metadata \<Rightarrow> py_error + Document list" where
  "create_table_chunks L td md =
     (let base = base_metadata md;
          chunks = [readable_chunk td base]
                   @ json_and_column_chunks L td base
                   @ statistics_chunks L td base
                   @ description_chunks L td base
      in case records td of
           None \<Rightarrow> Inr chunks
         | Some recs \<Rightarrow>
             if recs \<noteq> [] \<and> 10 < length recs
             then (case headers td of
                     None \<Rightarrow> Inl KeyError
                   | Some hdrs \<Rightarrow> Inr (chunks @ row_group_chunks L recs hdrs base))
             else Inr chunks)"

section \<open>Elements and the semantic orchestrator\<close>

text \<open>
  One parsed element: \<^verbatim>\<open>{"type": ..., "text": ..., "metadata": {...}}\<close>. The
  field \<open>html\<close> is the parsed soup of \<^verbatim>\<open>metadata["html"]\<close>, the list of its
  top-level nodes; it is empty exactly when the key is absent or the string is empty.
  \<open>coordinates_y\<close> is \<^verbatim>\<open>metadata["coordinates"]["y"]\<close> when
  \<^verbatim>\<open>coordinates\<close> is a dict with that key. \<open>obj_id\<close> is what
  \<^verbatim>\<open>id(table)\<close> returns for the element.
\<close>

record element_metadata =
  page_number :: "int option"
  coordinates_y :: "rat option"
  html :: "html_node list"

record element =
  el_type :: string
  el_text :: string
  el_metadata :: element_metadata
  obj_id :: nat

definition page_of :: "element \<Rightarrow> int" where
  "page_of e = (case page_number (el_metadata e) of Some p \<Rightarrow> p | None \<Rightarrow> 0)"

text \<open>The second \<^verbatim>\<open>SemanticChunker.process_table\<close> (semantic.py, lines 500-538).\<close>

definition table_metadata :: "element \<Rightarrow> metadata" where
  "table_metadata table =
     [(''page_number'', MInt (page_of table)),
      (''table_id'', MStr (''table_'' @ str_int (page_of table) @ ''_'' @ str_nat (obj_id table)))]"

definition process_table :: "py_lib \<Rightarrow> element \<Rightarrow> py_error + Document list" where
  "process_table L table =
     (let md = table_metadata table in
      if html (el_metadata table) \<noteq> []
      then create_table_chunks L
             (extract_table_from_html (Tag ''[document]'' (html (el_metadata table)))) md
      else Inr [\<lparr>page_content = ''TABLE:'' @ NL @ el_text table,
                 metadata = with_keys md
                   [(''type'', MStr ''table''),
                    (''chunking_strategy'', MStr ''semantic''),
                    (''table_format'', MStr ''text''),
                    (''table_purpose'', MStr ''display'')]\<rparr>])"

text \<open>
  \<^verbatim>\<open>SemanticChunker.process_elements\<close> (semantic.py, lines 540-649). The text
  elements are collected type by type (titles, then narrative text, then list items)
  and sorted, stably, by page number and vertical position.
\<close>

definition sort_position :: "element \<Rightarrow> int \<times> rat" where
  "sort_position e =
     (page_of e, case coordinates_y (el_metadata e) of Some y \<Rightarrow> y | None \<Rightarrow> 0)"

definition text_elements :: "element list \<Rightarrow> element list" where
  "text_elements elements =
     sort_key sort_position
       (filter (\<lambda>e. el_type e = ''Title'') elements
        @ filter (\<lambda>e. el_type e = ''NarrativeText'') elements
        @ filter (\<lambda>e. el_type e = ''ListItem'') elements)"

record section_rec =
  title :: string
  sec_content :: string
  page :: int

text \<open>The loop over the text elements: the current section and the sections saved so far.\<close>

fun section_loop :: "section_rec \<Rightarrow> section_rec list \<Rightarrow> element list \<Rightarrow> section_rec \<times> section_rec list" where
  "section_loop current_section sections [] = (current_section, sections)"
| "section_loop current_section sections (e # es) =
     (if el_type e = ''Title''
      then section_loop \<lparr>title = el_text e, sec_content = el_text e, page = page_of e\<rparr>
             (if sec_content current_section \<noteq> [] then sections @ [current_section] else sections) es
      else if sec_content current_section \<noteq> []
      then section_loop
             (current_section\<lparr>sec_content := sec_content current_section @ NL @ NL @ el_text e\<rparr>)
             sections es
      else section_loop (current_section\<lparr>sec_content := el_text e, page := page_of e\<rparr>) sections es)"

definition group_sections :: "element list \<Rightarrow> section_rec list" where
  "group_sections elems =
     (let (current_section, sections) =
            section_loop \<lparr>title = [], sec_content = [], page = 0\<rparr> [] elems;
          sections' = (if sec_content current_section \<noteq> [] then sections @ [current_section]
                       else sections)
      in if sections' = [] \<and> elems \<noteq> []
         then sections' @ [\<lparr>title = ''Document'',
                              sec_content = join (NL @ NL) (map el_text elems),
                              page = page_of (hd elems)\<rparr>]
         else sections')"

definition section_chunks :: "py_lib \<Rightarrow> nat \<Rightarrow> section_rec \<Rightarrow> Document list" where
  "section_chunks L i sec =
     map (\<lambda>piece.
            \<lparr>page_content = piece,
             metadata = [(''section'', MStr (title sec)),
                         (''page_number'', MInt (page sec)),
                         (''section_index'', MInt (int i)),
                         (''type'', MStr ''text''),
                         (''chunking_strategy'', MStr ''semantic'')]\<rparr>)
         (split_text L (sec_content sec))"

fun process_tables :: "py_lib \<Rightarrow> element list \<Rightarrow> py_error + Document list" where
  "process_tables L [] = Inr []"
| "process_tables L (t # ts) =
     (case process_table L t of
        Inl e \<Rightarrow> Inl e
      | Inr table_chunks \<Rightarrow>
          (case process_tables L ts of
             Inl e \<Rightarrow> Inl e
           | Inr others \<Rightarrow> Inr (table_chunks @ others)))"

definition process_elements :: "py_lib \<Rightarrow> element list \<Rightarrow> py_error + Document list" where
  "process_elements L elements =
     (case process_tables L (filter (\<lambda>e. el_type e = ''Table'') elements) of
        Inl e \<Rightarrow> Inl e
      | Inr chunks \<Rightarrow>
          (let sections = group_sections (text_elements elements)
           in Inr (chunks @ concat (map (\<lambda>(i, sec). section_chunks L i sec)
                                        (zip [0..<length sections] sections)))))"

section \<open>Chunker construction\<close>

text \<open>
  \<^verbatim>\<open>load_config(key, default)\<close> of config.py without a converter, and Python's
  \<^verbatim>\<open>int(s)\<close> on an optionally signed run of decimal digits with surrounding
  white space (\<^const>\<open>None\<close> for \<^verbatim>\<open>ValueError\<close>).
\<close>

definition load_config :: "(string \<Rightarrow> string option) \<Rightarrow> string \<Rightarrow> string \<Rightarrow> string" where
  "load_config env key dflt = (case env key of None \<Rightarrow> dflt | Some v \<Rightarrow> v)"

definition isdigit :: "char \<Rightarrow> bool" where
  "isdigit c = (let n = (of_char c :: nat) in 48 \<le> n \<and> n \<le> 57)"

definition digits_val :: "string \<Rightarrow> nat" where
  "digits_val ds = fold (\<lambda>c acc. 10 * acc + (of_char c - 48)) ds 0"

definition py_int :: "string \<Rightarrow> int option" where
  "py_int s =
     (let t = strip s;
          neg = (t \<noteq> [] \<and> hd t = CHR ''-'');
          ds = (if t \<noteq> [] \<and> (hd t = CHR ''-'' \<or> hd t = CHR ''+'') then tl t else t)
      in if ds = [] \<or> \<not> list_all isdigit ds then None
         else Some (if neg then - int (digits_val ds) else int (digits_val ds)))"

text \<open>
  The checks the text splitter's constructor makes on the two numbers
  (\<^verbatim>\<open>langchain_text_splitters.TextSplitter.__init__\<close>, a library): a chunk size
  below 1, a negative chunk overlap and a chunk overlap larger than the chunk size each
  raise \<^verbatim>\<open>ValueError\<close>. The first release of the library, the oldest one the
  repository accepts, makes the last check only; the statements proved below hold for
  both.
\<close>

record text_splitter =
  chunk_size :: int
  chunk_overlap :: int

definition TextSplitter_init :: "int \<Rightarrow> int \<Rightarrow> py_error + text_splitter" where
  "TextSplitter_init sz overlap =
     (if sz \<le> 0 then Inl ValueError
      else if overlap < 0 then Inl ValueError
      else if overlap > sz then Inl ValueError
      else Inr \<lparr>chunk_size = sz, chunk_overlap = overlap\<rparr>)"

text \<open>
  \<^verbatim>\<open>SemanticChunker.__init__\<close> (semantic.py, lines 35-46) and
  \<^verbatim>\<open>RecursiveChunker.__init__\<close> (recursive.py, lines 24-35), up to the splitter:
  neither compares the two numbers itself.
\<close>

definition chunker_init :: "string \<Rightarrow> string \<Rightarrow> (string \<Rightarrow> string option) \<Rightarrow> py_error + text_splitter" where
  "chunker_init size_key overlap_key env =
     (case py_int (load_config env size_key ''1000'') of
        None \<Rightarrow> Inl ValueError
      | Some sz \<Rightarrow>
          (case py_int (load_config env overlap_key ''200'') of
             None \<Rightarrow> Inl ValueError
           | Some overlap \<Rightarrow> TextSplitter_init sz overlap))"

definition SemanticChunker_init :: "(string \<Rightarrow> string option) \<Rightarrow> py_error + text_splitter" where
  "SemanticChunker_init env = chunker_init ''SEMANTIC_CHUNK_SIZE'' ''SEMANTIC_CHUNK_OVERLAP'' env"

definition RecursiveChunker_init :: "(string \<Rightarrow> string option) \<Rightarrow> py_error + text_splitter" where
  "RecursiveChunker_init env = chunker_init ''RECURSIVE_CHUNK_SIZE'' ''RECURSIVE_CHUNK_OVERLAP'' env"

section \<open>Retrieval\<close>

text \<open>\<^verbatim>\<open>RAGQuery._compare_results\<close> (query.py, lines 121-172).\<close>

text \<open>
  \<^verbatim>\<open>set(doc.metadata.get("type", "unknown") for doc in docs)\<close> as a list without
  duplicates; \<^const>\<open>None\<close> when a value is unhashable.
\<close>

definition type_set :: "Document list \<Rightarrow> mval list option" where
  "type_set docs =
     map_option remdups
       (those (map (\<lambda>doc. dict_key (case map_of (metadata doc) ''type'' of
                                       None \<Rightarrow> MStr ''unknown'' | Some v \<Rightarrow> v)) docs))"

definition metadata_keys :: "Document list \<Rightarrow> string list" where
  "metadata_keys docs = remdups (concat (map (\<lambda>doc. map fst (metadata doc)) docs))"

definition structured :: "Document list \<Rightarrow> bool" where
  "structured docs = list_ex (\<lambda>doc. map_of (metadata doc) ''section'' \<noteq> None) docs"

definition comparison_lines :: "Document list \<Rightarrow> Document list \<Rightarrow> string list option" where
  "comparison_lines recursive_docs semantic_docs =
     (case (type_set recursive_docs, type_set semantic_docs) of
        (Some rec_types, Some sem_types) \<Rightarrow>
          Some ([''Found '' @ str_nat (length recursive_docs) @ '' recursive chunks and ''
                 @ str_nat (length semantic_docs) @ '' semantic chunks.'']
                @ (if MStr ''table'' \<in> set sem_types
                   then [''Semantic chunking found relevant table data.''] else [])
                @ (if length sem_types > length rec_types
                   then [''Semantic chunking provided more diverse content types.''] else [])
                @ (if length (metadata_keys semantic_docs) > length (metadata_keys recursive_docs)
                   then [''Semantic chunking preserved more metadata.''] else [])
                @ (if structured semantic_docs \<and> \<not> structured recursive_docs
                   then [''Semantic chunking better preserved document structure.''] else []))
      | _ \<Rightarrow> None)"

definition compare_results :: "Document list \<Rightarrow> Document list \<Rightarrow> string" where
  "compare_results recursive_docs semantic_docs =
     (case comparison_lines recursive_docs semantic_docs of
        Some comparison \<Rightarrow> join NL comparison
      | None \<Rightarrow> ''Error comparing results'')"

text \<open>
  \<^verbatim>\<open>RAGQuery.is_table_query\<close> (query.py, lines 174-199):
  \<^verbatim>\<open>re.search(r'\b' + keyword + r'\b', query.lower())\<close> for each keyword. A word
  character is a letter, a digit or the underscore; \<^verbatim>\<open>\b\<close> matches where exactly
  one of the two neighbouring positions holds a word character.
\<close>

definition table_keywords :: "string list" where
  "table_keywords =
     [''table'', ''row'', ''column'', ''cell'', ''data'',
      ''value'', ''statistic'', ''average'', ''mean'', ''sum'',
      ''total'', ''maximum'', ''minimum'', ''count'', ''percentage'',
      ''compare'', ''comparison'', ''trend'', ''growth'', ''decline'',
      ''increase'', ''decrease'', ''ratio'', ''proportion'', ''distribution'']"

definition word_char :: "char \<Rightarrow> bool" where
  "word_char c = (isalnum c \<or> c = CHR ''_'')"

definition word_boundary :: "string \<Rightarrow> nat \<Rightarrow> bool" where
  "word_boundary s p =
     ((0 < p \<and> word_char (s ! (p - 1))) \<noteq> (p < length s \<and> word_char (s ! p)))"

definition search_word :: "string \<Rightarrow> string \<Rightarrow> bool" where
  "search_word keyword s =
     list_ex (\<lambda>i. word_boundary s i \<and> take (length keyword) (drop i s) = keyword
                  \<and> word_boundary s (i + length keyword))
             [0..<Suc (length s)]"

definition is_table_query :: "string \<Rightarrow> bool" where
  "is_table_query query = list_ex (\<lambda>keyword. search_word keyword (lower query)) table_keywords"

text \<open>\<^verbatim>\<open>RAGQuery.search_collection\<close> (query.py, lines 201-280).\<close>

record search_result =
  res_text :: string
  res_metadata :: metadata
  score :: rat

definition to_document :: "search_result \<Rightarrow> Document" where
  "to_document r = \<lparr>page_content = res_text r, metadata = res_metadata r\<rparr>"

definition SEMANTIC_COLLECTION_NAME :: "string \<Rightarrow> string" where
  "SEMANTIC_COLLECTION_NAME QDRANT_COLLECTION_PREFIX = QDRANT_COLLECTION_PREFIX @ ''semantic''"

definition is_table_doc :: "Document \<Rightarrow> bool" where
  "is_table_doc doc = (map_of (metadata doc) ''type'' = Some (MStr ''table''))"

definition table_id_of :: "Document \<Rightarrow> mval" where
  "table_id_of doc = (case map_of (metadata doc) ''table_id'' of None \<Rightarrow> MStr ''unknown'' | Some v \<Rightarrow> v)"

text \<open>
  The grouping loop: \<open>table_docs\<close> is the dict from table id to the documents of that
  table, \<open>text_docs\<close> the other documents. \<^const>\<open>None\<close> when a table id is unhashable.
\<close>

definition add_to_group :: "mval \<Rightarrow> Document \<Rightarrow> (mval \<times> Document list) list
    \<Rightarrow> (mval \<times> Document list) list" where
  "add_to_group table_id doc table_docs =
     (case map_of table_docs table_id of
        None \<Rightarrow> table_docs @ [(table_id, [doc])]
      | Some ds \<Rightarrow> AList.update table_id (ds @ [doc]) table_docs)"

fun group_docs :: "Document list \<Rightarrow> (mval \<times> Document list) list \<Rightarrow> Document list
    \<Rightarrow> ((mval \<times> Document list) list \<times> Document list) option" where
  "group_docs [] table_docs text_docs = Some (table_docs, text_docs)"
| "group_docs (doc # docs) table_docs text_docs =
     (if is_table_doc doc
      then (case dict_key (table_id_of doc) of
              None \<Rightarrow> None
            | Some table_id \<Rightarrow> group_docs docs (add_to_group table_id doc table_docs) text_docs)
      else group_docs docs table_docs (text_docs @ [doc]))"

text \<open>
  The sort key \<^verbatim>\<open>{"query": 0, "analysis": 1, "overview": 2, "display": 3}.get(purpose, 4)\<close>;
  \<^const>\<open>None\<close> when the purpose is unhashable.
\<close>

definition purpose_rank :: "Document \<Rightarrow> nat option" where
  "purpose_rank d =
     (case map_of (metadata d) ''table_purpose'' of
        None \<Rightarrow> Some 4
      | Some v \<Rightarrow>
          (case dict_key v of
             None \<Rightarrow> None
           | Some _ \<Rightarrow>
               Some (if v = MStr ''query'' then 0
                     else if v = MStr ''analysis'' then 1
                     else if v = MStr ''overview'' then 2
                     else if v = MStr ''display'' then 3
                     else 4)))"

definition rank_of :: "Document \<Rightarrow> nat" where
  "rank_of d = (case purpose_rank d of Some r \<Rightarrow> r | None \<Rightarrow> 4)"

definition is_json_doc :: "Document \<Rightarrow> bool" where
  "is_json_doc d = (map_of (metadata d) ''table_format'' = Some (MStr ''json''))"

definition prioritize_table :: "Document list \<Rightarrow> Document list option" where
  "prioritize_table docs =
     (if list_ex (\<lambda>d. purpose_rank d = None) docs then None
      else (let sorted_docs = sort_key rank_of docs in
            case sorted_docs of
              [] \<Rightarrow> Some []
            | best # _ \<Rightarrow>
                (case filter is_json_doc sorted_docs of
                   [] \<Rightarrow> Some [best]
                 | j # _ \<Rightarrow> Some (if j \<noteq> best then [best, j] else [best]))))"

definition prioritize :: "Document list \<Rightarrow> Document list option" where
  "prioritize documents =
     (case group_docs documents [] [] of
        None \<Rightarrow> None
      | Some (table_docs, text_docs) \<Rightarrow>
          map_option (\<lambda>sel. concat sel @ text_docs)
            (those (map (\<lambda>entry. prioritize_table (snd entry)) table_docs)))"

text \<open>The slice \<^verbatim>\<open>xs[:k]\<close> for any integer \<open>k\<close>.\<close>

definition py_take :: "int \<Rightarrow> 'a list \<Rightarrow> 'a list" where
  "py_take k xs = (if 0 \<le> k then take (nat k) xs else take (nat (int (length xs) + k)) xs)"

definition search_collection ::
  "string \<Rightarrow> (string \<Rightarrow> string \<Rightarrow> int \<Rightarrow> py_error + search_result list)
     \<Rightarrow> string \<Rightarrow> string \<Rightarrow> int \<Rightarrow> Document list" where
  "search_collection prefix search_documents collection_name query k =
     (case search_documents collection_name query (k + (if is_table_query query then 3 else 0)) of
        Inl e \<Rightarrow> []
      | Inr results \<Rightarrow>
          (let documents = map to_document results
           in if is_table_query query \<and> collection_name = SEMANTIC_COLLECTION_NAME prefix
              then (case prioritize documents of
                      None \<Rightarrow> []
                    | Some prioritized_docs \<Rightarrow> py_take k prioritized_docs)
              else documents))"

section \<open>Collections\<close>

text \<open>
  \<^verbatim>\<open>QdrantStorage.create_collection\<close> (qdrant.py, lines 35-60). The client's state
  is the list of collection names the server holds; the server refuses a name it
  already holds or does not accept (\<open>accepts\<close>).
\<close>

definition startswith :: "string \<Rightarrow> string \<Rightarrow> bool" where
  "startswith s prefix = (take (length prefix) s = prefix)"

definition client_create_collection :: "(string \<Rightarrow> bool) \<Rightarrow> string \<Rightarrow> string list \<Rightarrow> py_error + string list" where
  "client_create_collection accepts name held =
     (if name \<in> set held \<or> \<not> accepts name then Inl ClientError else Inr (held @ [name]))"

definition prefixed_name :: "string \<Rightarrow> string \<Rightarrow> string" where
  "prefixed_name prefix collection_name =
     (if \<not> startswith collection_name prefix then prefix @ collection_name else collection_name)"

definition create_collection :: "string \<Rightarrow> (string \<Rightarrow> bool) \<Rightarrow> string \<Rightarrow> string list \<Rightarrow> py_error + string list" where
  "create_collection prefix accepts collection_name held =
     client_create_collection accepts (prefixed_name prefix collection_name) held"

text \<open>
  \<^verbatim>\<open>fix_collections\<close> (routes.py, lines 325-357). After the new collection is
  created the route calls \<^verbatim>\<open>storage.copy_collection\<close>; \<^verbatim>\<open>QdrantStorage\<close> has
  no such method, so the call raises \<^verbatim>\<open>AttributeError\<close>, which the route logs:
  the old collection is kept and nothing is reported as fixed.
\<close>

definition str_isalnum :: "string \<Rightarrow> bool" where
  "str_isalnum s = (s \<noteq> [] \<and> list_all isalnum s)"

definition needs_fix :: "string \<Rightarrow> bool" where
  "needs_fix collection =
     (\<not> str_isalnum collection \<and> \<not> list_all (\<lambda>c. isalnum c \<or> c = CHR ''_'') collection)"

definition valid_name :: "string \<Rightarrow> string" where
  "valid_name collection = map (\<lambda>c. if isalnum c \<or> c = CHR ''_'' then c else CHR ''_'') collection"

definition fix_step :: "string \<Rightarrow> (string \<Rightarrow> bool) \<Rightarrow> string \<Rightarrow> string list \<Rightarrow> string list" where
  "fix_step prefix accepts collection held =
     (if needs_fix collection
      then (case create_collection prefix accepts (valid_name collection) held of
              Inl e \<Rightarrow> held
            | Inr held' \<Rightarrow> held')
      else held)"

definition fix_collections :: "string \<Rightarrow> (string \<Rightarrow> bool) \<Rightarrow> string list \<Rightarrow> string list \<times> (string \<times> string) list" where
  "fix_collections prefix accepts held = (fold (fix_step prefix accepts) held held, [])"

section \<open>An instance of the library parameters\<close>

text \<open>
  Used to evaluate the model on concrete inputs. Numbers are read in the plain decimal
  forms (an optional sign, digits, an optional fraction); the serialisers are simple
  printers; a set is iterated in first-occurrence order; a text is one piece.
\<close>

definition plain_number :: "string \<Rightarrow> rat option" where
  "plain_number s =
     (let neg = (s \<noteq> [] \<and> hd s = CHR ''-'');
          u = (if s \<noteq> [] \<and> (hd s = CHR ''-'' \<or> hd s = CHR ''+'') then tl s else s);
          ip = takeWhile isdigit u;
          rest = dropWhile isdigit u;
          fp = (if rest \<noteq> [] \<and> hd rest = CHR ''.'' then tl rest else []);
          v = of_nat (digits_val ip) + of_nat (digits_val fp) / 10 ^ length fp
      in if (rest \<noteq> [] \<and> hd rest \<noteq> CHR ''.'') \<or> \<not> list_all isdigit fp \<or> (ip = [] \<and> fp = [])
         then None
         else Some (if neg then - v else v))"

definition plain_json :: "json_record list \<Rightarrow> string" where
  "plain_json recs =
     ''['' @ join '', ''
       (map (\<lambda>r. ''{'' @ join '', ''
                (map (\<lambda>kv. ''\"'' @ fst kv @ ''\": ''
                            @ (case snd kv of None \<Rightarrow> ''null'' | Some v \<Rightarrow> ''\"'' @ v @ ''\"''))
                     r) @ ''}'')
            recs) @ '']''"

definition plain_float :: "rat \<Rightarrow> string" where
  "plain_float r =
     (if of_int \<lfloor>r\<rfloor> = r then str_int \<lfloor>r\<rfloor> @ ''.0''
      else str_int (fst (quotient_of r)) @ ''/'' @ str_int (snd (quotient_of r)))"

definition plain_lib :: py_lib where
  "plain_lib =
     \<lparr>json_dumps = plain_json,
      repr_float = plain_float,
      repr_str = (\<lambda>s. [CHR 0x27] @ s @ [CHR 0x27]),
      set_iter = remdups,
      py_float = (\<lambda>s. plain_number (strip s)),
      to_numeric = plain_number,
      split_text = (\<lambda>s. [s])\<rparr>"

section \<open>Views of a chunk list and the inputs of the examples\<close>

definition has_format :: "string \<Rightarrow> Document \<Rightarrow> bool" where
  "has_format fmt d = (map_of (metadata d) ''table_format'' = Some (MStr fmt))"

definition chunk_formats :: "py_error + Document list \<Rightarrow> mval option list" where
  "chunk_formats r =
     (case r of Inl e \<Rightarrow> [] | Inr chunks \<Rightarrow> map (\<lambda>d. map_of (metadata d) ''table_format'') chunks)"


text \<open>
  The parse of
  \<^verbatim>\<open><table><tr><th>Name</th><th>Revenue</th></tr><tr><td>A</td><td>100</td></tr><tr><td>B</td><td>200</td></tr></table>\<close>
  and a Table element that carries it.
\<close>

definition revenue_soup :: "html_node list" where
  "revenue_soup =
     [Tag ''table''
        [Tag ''tr'' [Tag ''th'' [NavigableString ''Name''], Tag ''th'' [NavigableString ''Revenue'']],
         Tag ''tr'' [Tag ''td'' [NavigableString ''A''], Tag ''td'' [NavigableString ''100'']],
         Tag ''tr'' [Tag ''td'' [NavigableString ''B''], Tag ''td'' [NavigableString ''200'']]]]"

definition revenue_element :: "int option \<Rightarrow> nat \<Rightarrow> element" where
  "revenue_element pg ident =
     \<lparr>el_type = ''Table'', el_text = ''Name Revenue A 100 B 200'',
      el_metadata = \<lparr>page_number = pg, coordinates_y = None, html = revenue_soup\<rparr>,
      obj_id = ident\<rparr>"

text \<open>
  \<^verbatim>\<open><table><thead><tr><th>a</th><th>b</th></tr></thead><tbody><tr><td>1</td></tr></tbody></table>\<close>:
  two header cells and one data row of one cell.
\<close>

definition ragged_table :: html_node where
  "ragged_table =
     Tag ''table''
       [Tag ''thead'' [Tag ''tr'' [Tag ''th'' [NavigableString ''a''], Tag ''th'' [NavigableString ''b'']]],
        Tag ''tbody'' [Tag ''tr'' [Tag ''td'' [NavigableString ''1'']]]]"

text \<open>A table whose first data row repeats the header texts.\<close>

definition repeated_header_row :: html_node where
  "repeated_header_row = Tag ''tr'' [Tag ''td'' [NavigableString ''a''], Tag ''td'' [NavigableString ''b'']]"

definition repeated_header_table :: html_node where
  "repeated_header_table =
     Tag ''table''
       [Tag ''thead'' [Tag ''tr'' [Tag ''th'' [NavigableString ''a''], Tag ''th'' [NavigableString ''b'']]],
        Tag ''tbody''
          [repeated_header_row,
           Tag ''tr'' [Tag ''td'' [NavigableString ''1''], Tag ''td'' [NavigableString ''2'']]]]"


text \<open>A structured table with eleven one-cell rows and no header.\<close>

definition eleven_records :: "json_record list" where
  "eleven_records = map (\<lambda>i. [(''0'', Some (str_nat i))]) [0..<11]"

definition eleven_table :: table_data where
  "eleven_table =
     \<lparr>headers = Some [],
      rows = Some (map (\<lambda>i. [str_nat i]) [0..<11]),
      records = Some eleven_records,
      columns = None, statistics = None, error = None\<rparr>"

definition narrative :: "string \<Rightarrow> element" where
  "narrative txt =
     \<lparr>el_type = ''NarrativeText'', el_text = txt,
      el_metadata = \<lparr>page_number = Some 1, coordinates_y = None, html = []\<rparr>,
      obj_id = 0\<rparr>"

definition typed_doc :: "string \<Rightarrow> string \<Rightarrow> Document" where
  "typed_doc txt ty = \<lparr>page_content = txt, metadata = [(''type'', MStr ty)]\<rparr>"

definition accept_all :: "string \<Rightarrow> bool" where
  "accept_all name = True"

definition overlap_env :: "string \<Rightarrow> string \<Rightarrow> string \<Rightarrow> string option" where
  "overlap_env sz ov key =
     (if key = ''SEMANTIC_CHUNK_SIZE'' \<or> key = ''RECURSIVE_CHUNK_SIZE'' then Some sz
      else if key = ''SEMANTIC_CHUNK_OVERLAP'' \<or> key = ''RECURSIVE_CHUNK_OVERLAP'' then Some ov
      else None)"

section \<open>The table-query policy in the words of the specification\<close>

text \<open>
  Stated on the retrieved documents, without the dict and the sort of the code: the
  table documents are grouped by table id, the groups ordered by the first appearance
  of their id; the chunk selected from a group is the first one, in retrieval order,
  whose purpose has the best (smallest) rank of the group; when that chunk is not a
  json chunk and the group holds json chunks, the selected one of those follows it.
\<close>

definition group_key :: "Document \<Rightarrow> mval" where
  "group_key d = (case dict_key (table_id_of d) of Some g \<Rightarrow> g | None \<Rightarrow> MNone)"

fun first_occurrences :: "'a list \<Rightarrow> 'a list" where
  "first_occurrences [] = []"
| "first_occurrences (x # xs) = x # first_occurrences (filter (\<lambda>y. y \<noteq> x) xs)"

definition table_groups :: "Document list \<Rightarrow> Document list list" where
  "table_groups docs =
     map (\<lambda>g. filter (\<lambda>d. group_key d = g) (filter is_table_doc docs))
         (first_occurrences (map group_key (filter is_table_doc docs)))"

definition best_by_purpose :: "Document list \<Rightarrow> Document" where
  "best_by_purpose ds = hd (filter (\<lambda>d. rank_of d = Min (rank_of ` set ds)) ds)"

definition table_selection :: "Document list \<Rightarrow> Document list" where
  "table_selection ds =
     (if ds = [] then []
      else best_by_purpose ds
           # (if is_json_doc (best_by_purpose ds) \<or> filter is_json_doc ds = [] then []
              else [best_by_purpose (filter is_json_doc ds)]))"

definition spec_ranked :: "Document list \<Rightarrow> int \<Rightarrow> Document list" where
  "spec_ranked docs k =
     take (nat k) (concat (map table_selection (table_groups docs))
                   @ filter (\<lambda>d. \<not> is_table_doc d) docs)"

text \<open>Documents for the examples: a chunk of a table, and a text chunk.\<close>

definition table_hit :: "string \<Rightarrow> string \<Rightarrow> string \<Rightarrow> string \<Rightarrow> search_result" where
  "table_hit txt tid fmt purpose =
     \<lparr>res_text = txt,
      res_metadata = [(''type'', MStr ''table''), (''table_id'', MStr tid),
                      (''table_format'', MStr fmt), (''table_purpose'', MStr purpose)],
      score = 1\<rparr>"

definition text_hit :: "string \<Rightarrow> search_result" where
  "text_hit txt = \<lparr>res_text = txt, res_metadata = [(''type'', MStr ''text'')], score = 1\<rparr>"

definition sample_hits :: "search_result list" where
  "sample_hits =
     [text_hit ''x'',
      table_hit ''r1'' ''T1'' ''readable'' ''display'',
      table_hit ''g1'' ''T1'' ''row_group'' ''query'',
      table_hit ''c1'' ''T1'' ''column'' ''analysis'',
      text_hit ''y'',
      table_hit ''j1'' ''T1'' ''json'' ''query'',
      table_hit ''d2'' ''T2'' ''description'' ''overview'']"

definition sample_search :: "string \<Rightarrow> string \<Rightarrow> int \<Rightarrow> py_error + search_result list" where
  "sample_search collection_name query limit = Inr sample_hits"

section \<open>Properties\<close>

subsection \<open>Header-equal rows\<close>

lemma extract_fields:
  "headers (extract_table_from_html t) = Some (extract_headers t)"
  "rows (extract_table_from_html t) = Some (extract_rows t)"
  by (simp_all add: extract_table_from_html_def Let_def split: sum.split)

text \<open>
  Claim C10. In \<^verbatim>\<open>extract_table_from_html\<close> the cells of a \<^verbatim>\<open>tr\<close> become a
  data row only when the list of cell texts is non-empty and differs from the extracted
  headers; so a \<^verbatim>\<open>tr\<close> whose cell texts equal the header texts contributes no row
  to the structured table.
\<close>

theorem header_equal_row_dropped:
  "rows (extract_table_from_html t) =
     Some (filter (\<lambda>row. row \<noteq> [] \<and> row \<noteq> extract_headers t) (map row_cells (find_all [''tr''] t)))
   \<and> headers (extract_table_from_html t) = Some (extract_headers t)
   \<and> (\<forall>tr \<in> set (find_all [''tr''] t). row_cells tr = extract_headers t \<longrightarrow>
        (\<exists>rws. rows (extract_table_from_html t) = Some rws \<and> row_cells tr \<notin> set rws))"
  by (simp add: extract_fields) (simp add: extract_rows_def)

theorem header_equal_row_dropped_witness:
  "repeated_header_row \<in> set (find_all [''tr''] repeated_header_table)
   \<and> row_cells repeated_header_row = extract_headers repeated_header_table
   \<and> rows (extract_table_from_html repeated_header_table) = Some [[''1'', ''2'']]
   \<and> row_cells repeated_header_row \<notin> set [[''1'', ''2'']]"
proof -
  have a: "repeated_header_row \<in> set (find_all [''tr''] repeated_header_table)"
    by code_simp
  have b: "row_cells repeated_header_row = extract_headers repeated_header_table"
    by code_simp
  have c: "rows (extract_table_from_html repeated_header_table) = Some [[''1'', ''2'']]"
    by code_simp
  from header_equal_row_dropped [of repeated_header_table] a b
  have "\<exists>rws. rows (extract_table_from_html repeated_header_table) = Some rws
          \<and> row_cells repeated_header_row \<notin> set rws"
    by blast
  with a b c show ?thesis by simp
qed

subsection \<open>Row padding\<close>

lemma fold_max_ge: "(m::nat) \<le> fold max xs m"
  by (induction xs arbitrary: m) (auto intro: order_trans [OF max.cobounded2])

lemma fold_max_mem: "x \<in> set xs \<Longrightarrow> (x::nat) \<le> fold max xs m"
proof (induction xs arbitrary: m)
  case Nil
  then show ?case by simp
next
  case (Cons a xs)
  show ?case
  proof (cases "x = a")
    case True
    have "a \<le> max a m" by simp
    also have "\<dots> \<le> fold max xs (max a m)" by (rule fold_max_ge)
    finally show ?thesis using True by simp
  next
    case False
    with Cons show ?thesis by simp
  qed
qed

lemma fold_max_eq_Max: "fold max xs (m::nat) = Max (insert m (set xs))"
  by (metis Max.set_eq_fold list.simps(15))

lemma max_cols_ge: "row \<in> set rws \<Longrightarrow> length row \<le> max_cols rws"
  by (cases rws) (auto simp: max_cols_def fold_max_ge fold_max_mem)

lemma max_cols_Max: "rws \<noteq> [] \<Longrightarrow> max_cols rws = Max (length ` set rws)"
  by (cases rws) (simp_all add: max_cols_def fold_max_eq_Max)

lemma process_table_html_rows:
  "rows (doc_table_data (process_table_html L t md)) = rows (extract_table_from_html t)"
  by (simp add: process_table_html_def Let_def split: sum.split)

text \<open>
  Claim C3 says every row of the structured table is padded to
  \<open>max(H, longest row)\<close> cells, so that each row is as long as the header list. On
  the table with two header cells and one data row of one cell, the rows that
  \<^verbatim>\<open>extract_table_from_html\<close> returns, and the rows of the table data that
  \<^verbatim>\<open>process_table\<close> returns, hold the one-cell row as it was read.
\<close>

theorem rows_not_padded_to_headers:
  "headers (extract_table_from_html ragged_table) = Some [''a'', ''b'']
   \<and> rows (extract_table_from_html ragged_table) = Some [[''1'']]
   \<and> rows (doc_table_data (process_table_html plain_lib ragged_table [])) = Some [[''1'']]
   \<and> length [''1''] < max (length [''a'', ''b'']) (length [''1''])"
proof -
  have a: "headers (extract_table_from_html ragged_table) = Some [''a'', ''b'']" by code_simp
  have b: "rows (extract_table_from_html ragged_table) = Some [[''1'']]" by code_simp
  have c: "rows (doc_table_data (process_table_html plain_lib ragged_table [])) = Some [[''1'']]"
    by (simp add: process_table_html_rows b)
  from a b c show ?thesis by simp
qed

text \<open>
  Claim C3, amended. \<^verbatim>\<open>process_table\<close> (the variant that takes an HTML element)
  builds \<^verbatim>\<open>padded_rows\<close>, one per extracted row and in the same order: each is
  the extracted row followed by empty-string cells, and each has \<^verbatim>\<open>max_cols\<close>
  cells, the length of the longest extracted row (the number of header cells plays no
  part). The padded rows feed the text and the data frame only: the \<^verbatim>\<open>rows\<close>
  of the returned table data are the rows \<^verbatim>\<open>extract_table_from_html\<close> read.
\<close>

theorem padded_rows_rectangular:
  "length (padded_rows rws) = length rws
   \<and> (\<forall>i < length rws.
         length (padded_rows rws ! i) = max_cols rws
         \<and> take (length (rws ! i)) (padded_rows rws ! i) = rws ! i
         \<and> drop (length (rws ! i)) (padded_rows rws ! i) = replicate (max_cols rws - length (rws ! i)) [])
   \<and> (rws \<noteq> [] \<longrightarrow> max_cols rws = Max (length ` set rws))
   \<and> rows (doc_table_data (process_table_html L t md)) = rows (extract_table_from_html t)"
proof -
  have "length (padded_rows rws ! i) = max_cols rws" if "i < length rws" for i
    using that max_cols_ge [of "rws ! i" rws] by (simp add: padded_rows_def)
  then show ?thesis
    by (simp add: padded_rows_def max_cols_Max process_table_html_rows)
qed

theorem padded_rows_rectangular_witness:
  "padded_rows [[''1'', ''2''], [''3'']] = [[''1'', ''2''], [''3'', []]]
   \<and> max_cols [[''1'', ''2''], [''3'']] = 2
   \<and> length (padded_rows [[''1'', ''2''], [''3'']] ! 1) = max_cols [[''1'', ''2''], [''3'']]"
proof -
  have a: "padded_rows [[''1'', ''2''], [''3'']] = [[''1'', ''2''], [''3'', []]]" by code_simp
  have b: "max_cols [[''1'', ''2''], [''3'']] = 2" by code_simp
  have "(1::nat) < length [[''1'', ''2''], [''3'']]" by simp
  with padded_rows_rectangular [of "[[''1'', ''2''], [''3'']]"]
  have "length (padded_rows [[''1'', ''2''], [''3'']] ! 1) = max_cols [[''1'', ''2''], [''3'']]"
    by blast
  with a b show ?thesis by simp
qed

subsection \<open>The two-row revenue table, end to end\<close>

lemma revenue_extract:
  "extract_table_from_html (Tag ''[document]'' revenue_soup) =
     \<lparr>headers = Some [],
      rows = Some [[''Name'', ''Revenue''], [''A'', ''100''], [''B'', ''200'']],
      records = Some [[(''0'', Some ''Name''), (''1'', Some ''Revenue'')],
                      [(''0'', Some ''A''), (''1'', Some ''100'')],
                      [(''0'', Some ''B''), (''1'', Some ''200'')]],
      columns = None, statistics = None, error = None\<rparr>"
  by code_simp

text \<open>
  Claim C1 says the table pipeline emits six chunks for the revenue table (readable,
  json with two records, two column views, statistics, description). The pipeline
  \<^verbatim>\<open>process_table\<close> (\<^verbatim>\<open>extract_table_from_html\<close>, then
  \<^verbatim>\<open>create_table_chunks\<close>) emits three: the readable, the json and the
  description chunk.
\<close>

theorem revenue_table_three_chunks:
  "chunk_formats (process_table plain_lib (revenue_element (Some 1) 7)) =
     [Some (MStr ''readable''), Some (MStr ''json''), Some (MStr ''description'')]"
  by code_simp

text \<open>
  Claim C1, amended. For the revenue table, whatever the page number and the identity
  of the element, the pipeline emits exactly one readable chunk, one json chunk and one
  description chunk, in this order, and no row-group chunk. The table has no
  \<^verbatim>\<open>thead\<close>, so no header is extracted and the \<^verbatim>\<open>th\<close> row is a data row:
  the json chunk counts three records, with the fields "0" and "1".
\<close>

theorem revenue_table_chunks:
  "chunk_formats (process_table L (revenue_element pg ident)) =
     [Some (MStr ''readable''), Some (MStr ''json''), Some (MStr ''description'')]
   \<and> (\<exists>readable json description.
         process_table L (revenue_element pg ident) = Inr [readable, json, description]
         \<and> map_of (metadata json) ''record_count'' = Some (MInt 3)
         \<and> map_of (metadata json) ''fields'' = Some (MList [MStr ''0'', MStr ''1'']))
   \<and> records (extract_table_from_html (Tag ''[document]'' revenue_soup)) =
        Some [[(''0'', Some ''Name''), (''1'', Some ''Revenue'')],
              [(''0'', Some ''A''), (''1'', Some ''100'')],
              [(''0'', Some ''B''), (''1'', Some ''200'')]]"
proof -
  have soup: "html (el_metadata (revenue_element pg ident)) = revenue_soup"
    by (simp add: revenue_element_def)
  have nonempty: "revenue_soup \<noteq> []"
    by (simp add: revenue_soup_def)
  have run: "process_table L (revenue_element pg ident) =
      create_table_chunks L (extract_table_from_html (Tag ''[document]'' revenue_soup))
        (table_metadata (revenue_element pg ident))"
    by (simp add: process_table_def soup nonempty Let_def)
  show ?thesis
    unfolding run revenue_extract
    by (simp add: create_table_chunks_def chunk_formats_def readable_chunk_def
        json_and_column_chunks_def json_chunk_def statistics_chunks_def description_chunks_def
        base_metadata_def with_keys_def table_metadata_def Let_def)
qed

subsection \<open>A column that mixes numbers and text\<close>





subsection \<open>Sections of a document without titles\<close>

text \<open>
  Claim C4 says a non-empty sequence of text elements without a Title yields one
  section titled "Document". For the single narrative element "hello" the section
  grouper yields one section whose title is the empty string.
\<close>

theorem untitled_text_section:
  "group_sections (text_elements [narrative ''hello'']) =
     [\<lparr>title = [], sec_content = ''hello'', page = 1\<rparr>]"
  by code_simp

text \<open>
  More generally: without a Title element and with some non-empty text, the loop itself
  leaves one section with the empty title, so the fallback that would create the
  "Document" section is not reached.
\<close>

lemma section_loop_no_title:
  assumes "\<forall>e \<in> set es. el_type e \<noteq> ''Title''"
  shows "snd (section_loop cur secs es) = secs
    \<and> title (fst (section_loop cur secs es)) = title cur
    \<and> ((sec_content cur \<noteq> [] \<or> (\<exists>e \<in> set es. el_text e \<noteq> []))
          \<longrightarrow> sec_content (fst (section_loop cur secs es)) \<noteq> [])"
  using assms
proof (induction es arbitrary: cur)
  case Nil
  then show ?case by simp
next
  case (Cons e es)
  then show ?case by (auto simp: NL_def)
qed

lemma untitled_section:
  assumes "\<forall>e \<in> set es. el_type e \<noteq> ''Title''" and "\<exists>e \<in> set es. el_text e \<noteq> []"
  shows "\<exists>c p. group_sections es = [\<lparr>title = [], sec_content = c, page = p\<rparr>] \<and> c \<noteq> []"
proof -
  let ?r = "section_loop \<lparr>title = [], sec_content = [], page = 0\<rparr> [] es"
  from section_loop_no_title [OF assms(1), of "\<lparr>title = [], sec_content = [], page = 0\<rparr>" "[]"] assms(2)
  have s: "snd ?r = []" and t: "title (fst ?r) = []" and c: "sec_content (fst ?r) \<noteq> []"
    by auto
  obtain cur secs where r: "?r = (cur, secs)" by (cases ?r)
  with s t c have "secs = []" "title cur = []" "sec_content cur \<noteq> []" by auto
  then have "group_sections es = [cur]" "cur = \<lparr>title = [], sec_content = sec_content cur, page = page cur\<rparr>"
    using r by (auto simp: group_sections_def)
  with \<open>sec_content cur \<noteq> []\<close> show ?thesis by metis
qed

subsection \<open>Chunk overlap and chunk size\<close>

text \<open>
  Claim C7 says a chunker with \<^verbatim>\<open>chunk_overlap >= chunk_size\<close> is rejected at
  construction. With both numbers set to 100, both constructors return a chunker.
\<close>

theorem equal_overlap_accepted:
  "SemanticChunker_init (overlap_env ''100'' ''100'') = Inr \<lparr>chunk_size = 100, chunk_overlap = 100\<rparr>
   \<and> RecursiveChunker_init (overlap_env ''100'' ''100'') = Inr \<lparr>chunk_size = 100, chunk_overlap = 100\<rparr>"
  by code_simp

text \<open>
  Claim C7, amended. When both configured values read as integers, constructing a
  chunker whose chunk overlap is larger than its chunk size fails with
  \<^verbatim>\<open>ValueError\<close>, inside the constructor; for a positive chunk size and a
  non-negative chunk overlap that is not larger, an overlap equal to the size included,
  the chunker is constructed. This holds for the semantic and for the recursive chunker,
  each with its own keys.
\<close>

theorem larger_overlap_rejected:
  assumes "py_int (load_config env size_key ''1000'') = Some sz"
    and "py_int (load_config env overlap_key ''200'') = Some overlap"
  shows "(overlap > sz \<longrightarrow> chunker_init size_key overlap_key env = Inl ValueError)
    \<and> (0 < sz \<and> 0 \<le> overlap \<and> overlap \<le> sz \<longrightarrow>
          chunker_init size_key overlap_key env = Inr \<lparr>chunk_size = sz, chunk_overlap = overlap\<rparr>)
    \<and> SemanticChunker_init env = chunker_init ''SEMANTIC_CHUNK_SIZE'' ''SEMANTIC_CHUNK_OVERLAP'' env
    \<and> RecursiveChunker_init env = chunker_init ''RECURSIVE_CHUNK_SIZE'' ''RECURSIVE_CHUNK_OVERLAP'' env"
  using assms
  by (simp add: chunker_init_def TextSplitter_init_def SemanticChunker_init_def RecursiveChunker_init_def)

theorem larger_overlap_rejected_witness:
  "py_int (load_config (overlap_env ''100'' ''101'') ''SEMANTIC_CHUNK_SIZE'' ''1000'') = Some 100
   \<and> py_int (load_config (overlap_env ''100'' ''101'') ''SEMANTIC_CHUNK_OVERLAP'' ''200'') = Some 101
   \<and> (101::int) > 100
   \<and> SemanticChunker_init (overlap_env ''100'' ''101'') = Inl ValueError
   \<and> py_int (load_config (overlap_env ''100'' ''50'') ''RECURSIVE_CHUNK_SIZE'' ''1000'') = Some 100
   \<and> py_int (load_config (overlap_env ''100'' ''50'') ''RECURSIVE_CHUNK_OVERLAP'' ''200'') = Some 50
   \<and> (0::int) < 100 \<and> (0::int) \<le> 50 \<and> (50::int) \<le> 100
   \<and> RecursiveChunker_init (overlap_env ''100'' ''50'') = Inr \<lparr>chunk_size = 100, chunk_overlap = 50\<rparr>"
proof -
  have a: "py_int (load_config (overlap_env ''100'' ''101'') ''SEMANTIC_CHUNK_SIZE'' ''1000'') = Some 100"
    by code_simp
  have b: "py_int (load_config (overlap_env ''100'' ''101'') ''SEMANTIC_CHUNK_OVERLAP'' ''200'') = Some 101"
    by code_simp
  have c: "py_int (load_config (overlap_env ''100'' ''50'') ''RECURSIVE_CHUNK_SIZE'' ''1000'') = Some 100"
    by code_simp
  have d: "py_int (load_config (overlap_env ''100'' ''50'') ''RECURSIVE_CHUNK_OVERLAP'' ''200'') = Some 50"
    by code_simp
  from larger_overlap_rejected [OF a b]
  have 1: "SemanticChunker_init (overlap_env ''100'' ''101'') = Inl ValueError" by simp
  from larger_overlap_rejected [OF c d]
  have 2: "RecursiveChunker_init (overlap_env ''100'' ''50'') = Inr \<lparr>chunk_size = 100, chunk_overlap = 50\<rparr>"
    by simp
  from a b c d 1 2 show ?thesis by simp
qed

subsection \<open>The comparison report\<close>

text \<open>
  Claim C8. For one recursive result of type "text" and the semantic results of types
  "table" and "text", the report holds the observation that semantic chunking found
  relevant table data and the observation that it provided more diverse content types
  (two distinct types against one); the report is these lines after the count line,
  joined by newlines.
\<close>

theorem comparison_report_table_and_diversity:
  "comparison_lines [typed_doc a ''text''] [typed_doc b ''table'', typed_doc c ''text''] =
     Some [''Found 1 recursive chunks and 2 semantic chunks.'',
           ''Semantic chunking found relevant table data.'',
           ''Semantic chunking provided more diverse content types.'']
   \<and> compare_results [typed_doc a ''text''] [typed_doc b ''table'', typed_doc c ''text''] =
     join NL [''Found 1 recursive chunks and 2 semantic chunks.'',
              ''Semantic chunking found relevant table data.'',
              ''Semantic chunking provided more diverse content types.'']"
  by (simp add: compare_results_def comparison_lines_def type_set_def typed_doc_def
      metadata_keys_def structured_def str_nat.simps)

subsection \<open>Row groups of a large table\<close>

lemma map_of_with_keys:
  "map_of (with_keys md kvs) k =
     (case map_of (rev kvs) k of Some v \<Rightarrow> Some v | None \<Rightarrow> map_of md k)"
proof (induction kvs arbitrary: md)
  case Nil
  then show ?case by (simp add: with_keys_def)
next
  case (Cons kv kvs)
  have "with_keys md (kv # kvs) = with_keys (AList.update (fst kv) (snd kv) md) kvs"
    by (simp add: with_keys_def)
  then show ?case
    using Cons [of "AList.update (fst kv) (snd kv) md"]
    by (cases kv) (auto simp: update_conv' map_add_def split: option.splits)
qed

lemma range_count_step:
  assumes "0 < s" and "i < n"
  shows "(n - i + s - 1) div s = Suc ((n - (i + s) + s - 1) div s)"
proof -
  from assms have "n - i + s - 1 = (n - i - 1) + s" by arith
  then have "(n - i + s - 1) div s = ((n - i - 1) + s) div s" by (simp only:)
  also from assms(1) have "\<dots> = Suc ((n - i - 1) div s)" by simp
  finally have l: "(n - i + s - 1) div s = Suc ((n - i - 1) div s)" .
  show ?thesis
  proof (cases "s \<le> n - i")
    case True
    then have "n - (i + s) + s - 1 = n - i - 1" by arith
    with l show ?thesis by (simp only:)
  next
    case False
    with assms have "n - (i + s) + s - 1 < s" "n - i - 1 < s" by arith+
    then have "(n - (i + s) + s - 1) div s = 0" "(n - i - 1) div s = 0" by simp_all
    with l show ?thesis by (simp only:)
  qed
qed

lemma upt_0_Suc: "[0..<Suc m] = 0 # map Suc [0..<m]"
proof -
  have "[0..<Suc m] = 0 # [Suc 0..<Suc m]" by (rule upt_conv_Cons) simp
  then show ?thesis by (simp only: map_Suc_upt)
qed

lemma range_step_eq:
  "0 < s \<Longrightarrow> range_step i n s = map (\<lambda>j. i + s * j) [0..<(n - i + s - 1) div s]"
proof (induction i n s rule: range_step.induct)
  case (1 i n s)
  show ?case
  proof (cases "n \<le> i")
    case True
    then have "range_step i n s = []" by (subst range_step.simps) simp
    moreover from True 1(2) have "(n - i + s - 1) div s = 0" by simp
    ultimately show ?thesis by simp
  next
    case False
    with 1 have IH: "range_step (i + s) n s = map (\<lambda>j. i + s + s * j) [0..<(n - (i + s) + s - 1) div s]"
      by simp
    from False 1(2) have cnt: "(n - i + s - 1) div s = Suc ((n - (i + s) + s - 1) div s)"
      by (intro range_count_step) simp_all
    from False 1(2) have "range_step i n s = i # range_step (i + s) n s"
      by (subst range_step.simps) simp
    also have "\<dots> = i # map (\<lambda>j. i + s + s * j) [0..<(n - (i + s) + s - 1) div s]"
      by (simp only: IH)
    also have "\<dots> = map (\<lambda>j. i + s * j) (0 # map Suc [0..<(n - (i + s) + s - 1) div s])"
      by (simp add: comp_def add.assoc)
    also have "\<dots> = map (\<lambda>j. i + s * j) [0..<(n - i + s - 1) div s]"
      by (simp only: cnt upt_0_Suc)
    finally show ?thesis .
  qed
qed

lemma row_starts: "range_step 0 n row_chunk_size = map (\<lambda>j. 5 * j) [0..<(n + 4) div 5]"
proof -
  have "range_step 0 n 5 = map (\<lambda>j. 0 + 5 * j) [0..<(n - 0 + 5 - 1) div 5]"
    by (rule range_step_eq) simp
  then show ?thesis
    by (simp add: row_chunk_size_def add.commute)
qed

lemma format_readable: "has_format f (readable_chunk td base) = (f = ''readable'')"
  by (auto simp: has_format_def readable_chunk_def map_of_with_keys)

lemma format_json: "has_format f (json_chunk L recs base) = (f = ''json'')"
  by (auto simp: has_format_def json_chunk_def map_of_with_keys Let_def)

lemma format_numeric_column:
  "has_format f (numeric_column_chunk L col_name v vs base) = (f = ''column'')"
  by (auto simp: has_format_def numeric_column_chunk_def map_of_with_keys Let_def)

lemma format_text_column:
  "has_format f (text_column_chunk L col_name col_values base) = (f = ''column'')"
  by (auto simp: has_format_def text_column_chunk_def map_of_with_keys Let_def)

lemma format_column:
  assumes "d \<in> set (column_chunks L col_name col_values base)"
  shows "has_format f d = (f = ''column'')"
proof (cases "numeric_values L col_values")
  case None
  with assms have "d = text_column_chunk L col_name col_values base"
    by (simp add: column_chunks_def split: if_splits)
  then show ?thesis by (simp only: format_text_column)
next
  case (Some nums)
  with assms obtain v vs where "d = numeric_column_chunk L col_name v vs base"
    by (cases nums) (simp_all add: column_chunks_def)
  then show ?thesis by (simp only: format_numeric_column)
qed

lemma format_statistics:
  assumes "d \<in> set (statistics_chunks L td base)"
  shows "has_format f d = (f = ''statistics'')"
proof -
  from assms obtain c kvs where
    "d = \<lparr>page_content = c,
          metadata = with_keys base ([(''table_format'', MStr ''statistics'')] @ kvs)\<rparr>"
    and "map_of (rev kvs) ''table_format'' = None"
    by (auto simp: statistics_chunks_def split: option.splits list.splits)
  then show ?thesis
    by (auto simp: has_format_def map_of_with_keys map_add_def)
qed

lemma format_description:
  assumes "d \<in> set (description_chunks L td base)"
  shows "has_format f d = (f = ''description'')"
proof -
  from assms obtain c where
    "d = \<lparr>page_content = c,
          metadata = with_keys base [(''table_format'', MStr ''description''),
                                     (''table_purpose'', MStr ''overview'')]\<rparr>"
    by (auto simp: description_chunks_def split: option.splits)
  then show ?thesis
    by (auto simp: has_format_def map_of_with_keys)
qed

lemma format_row_group: "has_format f (row_group_chunk L recs hdrs base i) = (f = ''row_group'')"
  by (auto simp: has_format_def row_group_chunk_def map_of_with_keys Let_def)

lemma row_group_tags:
  "map_of (metadata (row_group_chunk L recs hdrs base i)) ''row_range'' =
     Some (MStr (str_nat (i + 1) @ ''-'' @ str_nat (i + length (take 5 (drop i recs)))))"
  "map_of (metadata (row_group_chunk L recs hdrs base i)) ''json_data'' =
     Some (MStr (json_dumps L (take 5 (drop i recs))))"
  by (simp_all add: row_group_chunk_def map_of_with_keys Let_def row_range_def row_chunk_size_def)

lemma front_has_no_row_group:
  "filter (has_format ''row_group'')
     ([readable_chunk td base] @ json_and_column_chunks L td base
      @ statistics_chunks L td base @ description_chunks L td base) = []"
  by (auto simp: filter_empty_conv format_readable format_json format_column format_statistics
      format_description json_and_column_chunks_def split: option.splits list.splits)

lemma group_size:
  assumes "j < (length recs + 4) div 5"
  shows "length (take 5 (drop (5 * j) recs)) =
     (if Suc j < (length recs + 4) div 5 then 5
      else if length recs mod 5 = 0 then 5 else length recs mod 5)"
proof -
  define r where "r = length recs"
  define q where "q = r div 5"
  define m where "m = r mod 5"
  have r: "r = 5 * q + m" and m: "m < 5" by (simp_all add: q_def m_def)
  have "r + 4 = (m + 4) + q * 5" unfolding r by (simp only: ac_simps)
  then have "(r + 4) div 5 = ((m + 4) + q * 5) div 5" by (simp only:)
  also have "\<dots> = q + (m + 4) div 5" by (rule div_mult_self1) simp
  also have "(m + 4) div 5 = (if m = 0 then 0 else 1)"
  proof (cases "m = 0")
    case True
    then show ?thesis by simp
  next
    case False
    with m have "(m + 4) div 5 = 1" by (intro div_nat_eqI) simp_all
    with False show ?thesis by simp
  qed
  finally have c: "(r + 4) div 5 = q + (if m = 0 then 0 else 1)" .
  from assms have j: "j < q + (if m = 0 then 0 else 1)"
    unfolding r_def [symmetric] c .
  have s: "min (r - 5 * j) 5 =
     (if Suc j < q + (if m = 0 then 0 else 1) then 5 else if m = 0 then 5 else m)"
    using j m unfolding r by (auto simp: min_def split: if_splits)
  have "length (take 5 (drop (5 * j) recs)) = min (r - 5 * j) 5"
    by (simp add: r_def)
  also note s
  finally show ?thesis
    unfolding c [symmetric] unfolding r_def m_def .
qed

text \<open>
  Claim C5. For a structured table (headers present, possibly empty) whose records list
  has R entries with R > 10, \<^verbatim>\<open>create_table_chunks\<close> emits exactly
  \<open>ceil(R/5)\<close> row-group chunks, after all other chunks. The j-th of them (from 0)
  covers the records \<open>5j, ..., 5j+4\<close> that exist (its \<^verbatim>\<open>json_data\<close> is their
  serialisation) and is tagged with the row range \<open>5j+1\<close> to \<open>5j\<close> plus its size;
  every group but the last has 5 records and the last has \<open>R mod 5\<close>, or 5 when 5
  divides R.
\<close>

theorem row_group_chunks_partition:
  assumes "records td = Some recs" and "10 < length recs" and "headers td = Some hdrs"
  shows "\<exists>chunks. create_table_chunks L td md = Inr chunks
    \<and> filter (has_format ''row_group'') chunks =
        map (\<lambda>j. row_group_chunk L recs hdrs (base_metadata md) (5 * j)) [0..<(length recs + 4) div 5]
    \<and> length (filter (has_format ''row_group'') chunks) = (length recs + 4) div 5
    \<and> (\<forall>j < (length recs + 4) div 5.
          map_of (metadata (row_group_chunk L recs hdrs (base_metadata md) (5 * j))) ''json_data'' =
            Some (MStr (json_dumps L (take 5 (drop (5 * j) recs))))
          \<and> map_of (metadata (row_group_chunk L recs hdrs (base_metadata md) (5 * j))) ''row_range'' =
            Some (MStr (str_nat (5 * j + 1) @ ''-''
                        @ str_nat (5 * j + length (take 5 (drop (5 * j) recs)))))
          \<and> length (take 5 (drop (5 * j) recs)) =
              (if Suc j < (length recs + 4) div 5 then 5
               else if length recs mod 5 = 0 then 5 else length recs mod 5))"
proof -
  let ?base = "base_metadata md"
  let ?front = "[readable_chunk td ?base] @ json_and_column_chunks L td ?base
      @ statistics_chunks L td ?base @ description_chunks L td ?base"
  let ?groups = "row_group_chunks L recs hdrs ?base"
  from assms have run: "create_table_chunks L td md = Inr (?front @ ?groups)"
    by (auto simp: create_table_chunks_def Let_def)
  have groups: "?groups = map (\<lambda>j. row_group_chunk L recs hdrs ?base (5 * j)) [0..<(length recs + 4) div 5]"
    by (simp add: row_group_chunks_def row_starts comp_def)
  have "filter (has_format ''row_group'') ?groups = ?groups"
    by (simp add: groups format_row_group)
  with front_has_no_row_group [of td ?base L]
  have filt: "filter (has_format ''row_group'') (?front @ ?groups) = ?groups"
    by (simp only: filter_append append_Nil)
  have count: "length ?groups = (length recs + 4) div 5"
    by (simp add: groups)
  have sizes: "\<forall>j < (length recs + 4) div 5.
      map_of (metadata (row_group_chunk L recs hdrs ?base (5 * j))) ''json_data'' =
        Some (MStr (json_dumps L (take 5 (drop (5 * j) recs))))
      \<and> map_of (metadata (row_group_chunk L recs hdrs ?base (5 * j))) ''row_range'' =
        Some (MStr (str_nat (5 * j + 1) @ ''-''
                    @ str_nat (5 * j + length (take 5 (drop (5 * j) recs)))))
      \<and> length (take 5 (drop (5 * j) recs)) =
          (if Suc j < (length recs + 4) div 5 then 5
           else if length recs mod 5 = 0 then 5 else length recs mod 5)"
    using group_size [of _ recs] by (simp add: row_group_tags)
  from filt count have
    "filter (has_format ''row_group'') (?front @ ?groups) =
        map (\<lambda>j. row_group_chunk L recs hdrs ?base (5 * j)) [0..<(length recs + 4) div 5]"
    "length (filter (has_format ''row_group'') (?front @ ?groups)) = (length recs + 4) div 5"
    using groups by simp_all
  with run sizes show ?thesis by blast
qed

theorem row_group_chunks_partition_witness:
  "records eleven_table = Some eleven_records
   \<and> 10 < length eleven_records
   \<and> headers eleven_table = Some []
   \<and> (\<exists>chunks. create_table_chunks plain_lib eleven_table [] = Inr chunks
         \<and> length (filter (has_format ''row_group'') chunks) = 3)"
proof -
  have a: "records eleven_table = Some eleven_records" by (simp add: eleven_table_def)
  have b: "10 < length eleven_records" by (simp add: eleven_records_def)
  have c: "headers eleven_table = Some []" by (simp add: eleven_table_def)
  have n: "(length eleven_records + 4) div 5 = 3" by (simp add: eleven_records_def)
  from row_group_chunks_partition [OF a b c, of plain_lib "[]"] n
  have "\<exists>chunks. create_table_chunks plain_lib eleven_table [] = Inr chunks
         \<and> length (filter (has_format ''row_group'') chunks) = 3"
    by auto
  with a b c show ?thesis by simp
qed

subsection \<open>Collection names\<close>

lemma fix_step_mono: "set held \<subseteq> set (fix_step prefix accepts c held)"
  by (auto simp: fix_step_def create_collection_def client_create_collection_def)

lemma fold_fix_step_mono: "set held \<subseteq> set (fold (fix_step prefix accepts) cs held)"
proof (induction cs arbitrary: held)
  case Nil
  then show ?case by simp
next
  case (Cons c cs)
  have "set held \<subseteq> set (fix_step prefix accepts c held)" by (rule fix_step_mono)
  also have "\<dots> \<subseteq> set (fold (fix_step prefix accepts) cs (fix_step prefix accepts c held))"
    by (rule Cons.IH)
  finally show ?case by simp
qed

lemma fix_step_creates:
  assumes "needs_fix c" and "accepts (prefixed_name prefix (valid_name c))"
  shows "prefixed_name prefix (valid_name c) \<in> set (fix_step prefix accepts c held)"
  using assms by (auto simp: fix_step_def create_collection_def client_create_collection_def)

lemma fold_fix_step_creates:
  assumes "c \<in> set cs" and "needs_fix c" and "accepts (prefixed_name prefix (valid_name c))"
  shows "prefixed_name prefix (valid_name c) \<in> set (fold (fix_step prefix accepts) cs held)"
  using assms(1)
proof (induction cs arbitrary: held)
  case Nil
  then show ?case by simp
next
  case (Cons x cs)
  show ?case
  proof (cases "x = c")
    case True
    have "prefixed_name prefix (valid_name c) \<in> set (fix_step prefix accepts c held)"
      using assms(2,3) by (rule fix_step_creates)
    with fold_fix_step_mono [of "fix_step prefix accepts c held" prefix accepts cs] True
    show ?thesis by auto
  next
    case False
    with Cons show ?thesis by simp
  qed
qed

lemma valid_name_ok: "list_all (\<lambda>ch. isalnum ch \<or> ch = CHR ''_'') (valid_name c)"
  by (induction c) (simp_all add: valid_name_def)

text \<open>
  Claim C9 says a collection name with a character outside \<open>[A-Za-z0-9_]\<close> is
  sanitized before the collection is created. \<^verbatim>\<open>create_collection\<close> creates
  "my-docs" under the prefixed name, hyphen included.
\<close>

theorem unsanitized_name_created:
  "create_collection ''semantic_chunking_'' accept_all ''my-docs'' [] = Inr [''semantic_chunking_my-docs'']
   \<and> CHR ''-'' \<in> set ''semantic_chunking_my-docs''
   \<and> \<not> isalnum CHR ''-''"
  by code_simp

lemma create_collection_new:
  "accepts (prefixed_name prefix name) \<and> prefixed_name prefix name \<notin> set held
     \<longrightarrow> create_collection prefix accepts name held = Inr (held @ [prefixed_name prefix name])"
  by (simp add: create_collection_def client_create_collection_def)

lemma needs_fix_iff: "needs_fix c \<longleftrightarrow> (\<exists>ch \<in> set c. \<not> isalnum ch \<and> ch \<noteq> CHR ''_'')"
  by (auto simp: needs_fix_def str_isalnum_def list_all_iff)

lemma valid_name_nth:
  "\<forall>i < length c. valid_name c ! i =
      (if isalnum (c ! i) \<or> c ! i = CHR ''_'' then c ! i else CHR ''_'')"
  by (simp add: valid_name_def)

lemma valid_name_fixed: "\<not> needs_fix (valid_name c)"
  using valid_name_ok [of c] by (simp add: needs_fix_def)

lemma fix_collections_creates:
  "c \<in> set held \<and> needs_fix c \<and> accepts (prefixed_name prefix (valid_name c))
     \<longrightarrow> prefixed_name prefix (valid_name c) \<in> set (fst (fix_collections prefix accepts held))"
  by (auto simp: fix_collections_def intro: fold_fix_step_creates)

text \<open>
  Claim C9, amended. \<^verbatim>\<open>create_collection\<close> puts the configured prefix before a
  name that does not start with it and creates the collection under that name, with
  the characters of the name unchanged: it does not sanitize. Sanitizing exists only in
  the fix-collections route, for collections that already exist: a name needs fixing
  exactly when it holds a character that is neither alphanumeric nor the underscore;
  the valid name has the same length, keeps every alphanumeric character and underscore
  and has an underscore in place of every other character, so it needs no fixing; and
  for every held name that needs fixing the route creates a collection under the
  prefixed valid name (when the server accepts that name).
\<close>

theorem create_prefixes_fix_sanitizes:
  "(accepts (prefixed_name prefix name) \<and> prefixed_name prefix name \<notin> set held
      \<longrightarrow> create_collection prefix accepts name held = Inr (held @ [prefixed_name prefix name]))
   \<and> (\<not> startswith name prefix \<longrightarrow> prefixed_name prefix name = prefix @ name)
   \<and> (startswith name prefix \<longrightarrow> prefixed_name prefix name = name)
   \<and> (needs_fix c \<longleftrightarrow> (\<exists>ch \<in> set c. \<not> isalnum ch \<and> ch \<noteq> CHR ''_''))
   \<and> length (valid_name c) = length c
   \<and> (\<forall>i < length c. valid_name c ! i =
          (if isalnum (c ! i) \<or> c ! i = CHR ''_'' then c ! i else CHR ''_''))
   \<and> \<not> needs_fix (valid_name c)
   \<and> (c \<in> set held \<and> needs_fix c \<and> accepts (prefixed_name prefix (valid_name c))
      \<longrightarrow> prefixed_name prefix (valid_name c) \<in> set (fst (fix_collections prefix accepts held)))"
proof (intro conjI)
  show "accepts (prefixed_name prefix name) \<and> prefixed_name prefix name \<notin> set held
      \<longrightarrow> create_collection prefix accepts name held = Inr (held @ [prefixed_name prefix name])"
    by (rule create_collection_new)
  show "\<not> startswith name prefix \<longrightarrow> prefixed_name prefix name = prefix @ name"
    by (simp add: prefixed_name_def)
  show "startswith name prefix \<longrightarrow> prefixed_name prefix name = name"
    by (simp add: prefixed_name_def)
  show "needs_fix c \<longleftrightarrow> (\<exists>ch \<in> set c. \<not> isalnum ch \<and> ch \<noteq> CHR ''_'')"
    by (rule needs_fix_iff)
  show "length (valid_name c) = length c"
    by (simp add: valid_name_def)
  show "\<forall>i < length c. valid_name c ! i =
          (if isalnum (c ! i) \<or> c ! i = CHR ''_'' then c ! i else CHR ''_'')"
    by (rule valid_name_nth)
  show "\<not> needs_fix (valid_name c)"
    by (rule valid_name_fixed)
  show "c \<in> set held \<and> needs_fix c \<and> accepts (prefixed_name prefix (valid_name c))
      \<longrightarrow> prefixed_name prefix (valid_name c) \<in> set (fst (fix_collections prefix accepts held))"
    by (rule fix_collections_creates)
qed

theorem create_prefixes_fix_sanitizes_witness:
  "accept_all (prefixed_name ''semantic_chunking_'' ''my-docs'')
   \<and> prefixed_name ''semantic_chunking_'' ''my-docs'' \<notin> set []
   \<and> create_collection ''semantic_chunking_'' accept_all ''my-docs'' [] =
       Inr ([] @ [prefixed_name ''semantic_chunking_'' ''my-docs''])
   \<and> prefixed_name ''semantic_chunking_'' ''my-docs'' = ''semantic_chunking_my-docs''
   \<and> ''my-docs'' \<in> set [''my-docs'', ''ok_1'']
   \<and> needs_fix ''my-docs''
   \<and> accept_all (prefixed_name ''semantic_chunking_'' (valid_name ''my-docs''))
   \<and> prefixed_name ''semantic_chunking_'' (valid_name ''my-docs'') = ''semantic_chunking_my_docs''
   \<and> prefixed_name ''semantic_chunking_'' (valid_name ''my-docs'')
       \<in> set (fst (fix_collections ''semantic_chunking_'' accept_all [''my-docs'', ''ok_1'']))"
proof -
  have a: "accept_all (prefixed_name ''semantic_chunking_'' ''my-docs'')"
    by (simp add: accept_all_def)
  have b: "prefixed_name ''semantic_chunking_'' ''my-docs'' \<notin> set []" by simp
  have c: "''my-docs'' \<in> set [''my-docs'', ''ok_1'']" by simp
  have d: "needs_fix ''my-docs''" by code_simp
  have e: "accept_all (prefixed_name ''semantic_chunking_'' (valid_name ''my-docs''))"
    by (simp add: accept_all_def)
  have g: "prefixed_name ''semantic_chunking_'' ''my-docs'' = ''semantic_chunking_my-docs''"
    by code_simp
  have h: "prefixed_name ''semantic_chunking_'' (valid_name ''my-docs'') = ''semantic_chunking_my_docs''"
    by code_simp
  note t = create_prefixes_fix_sanitizes [of accept_all "''semantic_chunking_''" "''my-docs''" "[]" "''my-docs''",
      THEN conjunct1, rule_format, OF conjI, OF a b]
  note u = create_prefixes_fix_sanitizes [of accept_all "''semantic_chunking_''" "''my-docs''" "[''my-docs'', ''ok_1'']" "''my-docs''",
      THEN conjunct2, THEN conjunct2, THEN conjunct2, THEN conjunct2, THEN conjunct2,
      THEN conjunct2, THEN conjunct2, rule_format, OF conjI, OF c conjI, OF d e]
  show ?thesis
    by (intro conjI) (rule a b c d e g h t u)+
qed

subsection \<open>Table-query prioritisation\<close>

lemma those_map_Some: "those (map (\<lambda>x. Some (f x)) xs) = Some (map f xs)"
  by (induction xs) simp_all

lemma set_first_occurrences: "set (first_occurrences xs) = set xs"
proof (induction xs rule: first_occurrences.induct)
  case 1
  then show ?case by simp
next
  case (2 x xs)
  then show ?case by auto
qed

lemma update_distinct_map:
  assumes "distinct (map fst T)" and "map_of T k = Some xs"
  shows "AList.update k (f xs) T = map (\<lambda>(g, ys). if g = k then (g, f ys) else (g, ys)) T"
  using assms
proof (induction T)
  case Nil
  then show ?case by simp
next
  case (Cons p T)
  obtain g0 y0 where p: "p = (g0, y0)" by (cases p)
  show ?case
  proof (cases "g0 = k")
    case True
    with Cons.prems p have "k \<notin> fst ` set T" and xs: "xs = y0" by auto
    then have "map (\<lambda>(g, ys). if g = k then (g, f ys) else (g, ys)) T = T"
      by (intro map_idI) (auto simp: image_iff)
    with True p xs show ?thesis by simp
  next
    case False
    with Cons p show ?thesis by simp
  qed
qed

lemma fold_add_to_group:
  assumes "distinct (map fst T)"
  shows "fold (\<lambda>d. add_to_group (key d) d) ds T =
     map (\<lambda>(g, xs). (g, xs @ filter (\<lambda>d. key d = g) ds)) T
     @ map (\<lambda>g. (g, filter (\<lambda>d. key d = g) ds))
           (first_occurrences (filter (\<lambda>g. g \<notin> fst ` set T) (map key ds)))"
  using assms
proof (induction ds arbitrary: T)
  case Nil
  then show ?case by simp
next
  case (Cons d ds)
  let ?k = "key d"
  show ?case
  proof (cases "map_of T ?k")
    case None
    then have notin: "?k \<notin> fst ` set T" by (simp add: map_of_eq_None_iff)
    let ?T' = "T @ [(?k, [d])]"
    have add: "add_to_group ?k d T = ?T'" by (simp add: add_to_group_def None)
    from Cons.prems notin have dist: "distinct (map fst ?T')" by simp
    have keys: "(\<lambda>g. g \<notin> fst ` set ?T') = (\<lambda>g. g \<notin> fst ` set T \<and> g \<noteq> ?k)"
      by auto
    let ?L = "first_occurrences (filter (\<lambda>g. g \<notin> fst ` set T \<and> g \<noteq> ?k) (map key ds))"
    have L: "\<forall>g \<in> set ?L. g \<noteq> ?k" by (simp add: set_first_occurrences)
    have front: "map (\<lambda>(g, xs). (g, xs @ filter (\<lambda>d. key d = g) (d # ds))) T =
        map (\<lambda>(g, xs). (g, xs @ filter (\<lambda>d. key d = g) ds)) T"
      using notin by (intro map_cong refl) (auto simp: image_iff)
    have tail_eq: "map (\<lambda>g. (g, filter (\<lambda>d. key d = g) (d # ds))) ?L =
        map (\<lambda>g. (g, filter (\<lambda>d. key d = g) ds)) ?L"
    proof (rule map_cong [OF refl])
      fix g
      assume "g \<in> set ?L"
      with L have "key d \<noteq> g" by blast
      then show "(g, filter (\<lambda>d. key d = g) (d # ds)) = (g, filter (\<lambda>d. key d = g) ds)"
        by simp
    qed
    have "fold (\<lambda>d. add_to_group (key d) d) (d # ds) T = fold (\<lambda>d. add_to_group (key d) d) ds ?T'"
      by (simp add: add)
    also have "\<dots> = map (\<lambda>(g, xs). (g, xs @ filter (\<lambda>d. key d = g) ds)) ?T'
       @ map (\<lambda>g. (g, filter (\<lambda>d. key d = g) ds)) ?L"
      using Cons.IH [OF dist] by (simp only: keys)
    also have "\<dots> = map (\<lambda>(g, xs). (g, xs @ filter (\<lambda>d. key d = g) (d # ds))) T
       @ (?k, d # filter (\<lambda>d. key d = ?k) ds)
       # map (\<lambda>g. (g, filter (\<lambda>d. key d = g) (d # ds))) ?L"
      unfolding front tail_eq by simp
    also have "(?k, d # filter (\<lambda>d. key d = ?k) ds)
       # map (\<lambda>g. (g, filter (\<lambda>d. key d = g) (d # ds))) ?L =
       map (\<lambda>g. (g, filter (\<lambda>d. key d = g) (d # ds)))
           (first_occurrences (filter (\<lambda>g. g \<notin> fst ` set T) (map key (d # ds))))"
      using notin by simp
    finally show ?thesis .
  next
    case (Some xs)
    then have isin: "?k \<in> fst ` set T" by (metis map_of_eq_None_iff option.distinct(1))
    let ?T' = "map (\<lambda>(g, ys). if g = ?k then (g, ys @ [d]) else (g, ys)) T"
    have add: "add_to_group ?k d T = ?T'"
      using update_distinct_map [OF Cons.prems Some, of "\<lambda>ys. ys @ [d]"]
      by (simp add: add_to_group_def Some)
    have fsts: "map fst ?T' = map fst T" by (induction T) auto
    then have keys: "fst ` set ?T' = fst ` set T" by (metis set_map)
    from Cons.prems have dist: "distinct (map fst ?T')" by (simp only: fsts)
    let ?L = "first_occurrences (filter (\<lambda>g. g \<notin> fst ` set T) (map key ds))"
    have L: "\<forall>g \<in> set ?L. g \<noteq> ?k" using isin by (force simp: set_first_occurrences)
    have front: "map (\<lambda>(g, xs). (g, xs @ filter (\<lambda>d. key d = g) ds)) ?T' =
        map (\<lambda>(g, xs). (g, xs @ filter (\<lambda>d. key d = g) (d # ds))) T"
      by (induction T) auto
    have tail_eq: "map (\<lambda>g. (g, filter (\<lambda>d. key d = g) (d # ds))) ?L =
        map (\<lambda>g. (g, filter (\<lambda>d. key d = g) ds)) ?L"
    proof (rule map_cong [OF refl])
      fix g
      assume "g \<in> set ?L"
      with L have "key d \<noteq> g" by blast
      then show "(g, filter (\<lambda>d. key d = g) (d # ds)) = (g, filter (\<lambda>d. key d = g) ds)"
        by simp
    qed
    have "fold (\<lambda>d. add_to_group (key d) d) (d # ds) T = fold (\<lambda>d. add_to_group (key d) d) ds ?T'"
      by (simp add: add)
    also have "\<dots> = map (\<lambda>(g, xs). (g, xs @ filter (\<lambda>d. key d = g) ds)) ?T'
       @ map (\<lambda>g. (g, filter (\<lambda>d. key d = g) ds)) ?L"
      using Cons.IH [OF dist] by (simp only: keys)
    also have "\<dots> = map (\<lambda>(g, xs). (g, xs @ filter (\<lambda>d. key d = g) (d # ds))) T
       @ map (\<lambda>g. (g, filter (\<lambda>d. key d = g) (d # ds))) ?L"
      by (simp only: front tail_eq)
    also have "?L = first_occurrences (filter (\<lambda>g. g \<notin> fst ` set T) (map key (d # ds)))"
      using isin by simp
    finally show ?thesis .
  qed
qed


lemma group_docs_fold:
  assumes "\<forall>d \<in> set docs. is_table_doc d \<longrightarrow> dict_key (table_id_of d) \<noteq> None"
  shows "group_docs docs T X =
     Some (fold (\<lambda>d. add_to_group (group_key d) d) (filter is_table_doc docs) T,
           X @ filter (\<lambda>d. \<not> is_table_doc d) docs)"
  using assms
proof (induction docs arbitrary: T X)
  case Nil
  then show ?case by simp
next
  case (Cons d docs)
  show ?case
  proof (cases "is_table_doc d")
    case True
    with Cons.prems obtain g where g: "dict_key (table_id_of d) = Some g" by auto
    then have "group_key d = g" by (simp add: group_key_def)
    with True g Cons show ?thesis by simp
  next
    case False
    with Cons show ?thesis by simp
  qed
qed

lemma group_docs_groups:
  assumes "\<forall>d \<in> set docs. is_table_doc d \<longrightarrow> dict_key (table_id_of d) \<noteq> None"
  shows "\<exists>table_docs. group_docs docs [] [] = Some (table_docs, filter (\<lambda>d. \<not> is_table_doc d) docs)
           \<and> map snd table_docs = table_groups docs"
proof -
  let ?tdocs = "filter is_table_doc docs"
  let ?T = "fold (\<lambda>d. add_to_group (group_key d) d) ?tdocs []"
  have "?T = map (\<lambda>g. (g, filter (\<lambda>d. group_key d = g) ?tdocs))
                 (first_occurrences (map group_key ?tdocs))"
    using fold_add_to_group [of "[]" group_key ?tdocs] by simp
  then have "map snd ?T = table_groups docs"
    by (simp add: table_groups_def comp_def)
  with group_docs_fold [OF assms, of "[]" "[]"] show ?thesis by simp
qed

lemma hd_sort_key:
  assumes "xs \<noteq> []"
  shows "hd (sort_key f xs) = hd (filter (\<lambda>x. f x = Min (f ` set xs)) xs)"
proof -
  let ?ys = "sort_key f xs"
  from assms have "?ys \<noteq> []" by (metis length_sort length_0_conv)
  then obtain h t where ys: "?ys = h # t" by (cases ?ys) auto
  have "sorted (map f ?ys)" by (rule sorted_sort_key)
  with ys have "\<forall>y \<in> set t. f h \<le> f y" by simp
  moreover have sets: "set xs = set (h # t)" using ys by (metis set_sort)
  ultimately have le: "\<forall>x \<in> set xs. f h \<le> f x" by auto
  from sets have hin: "h \<in> set xs" by simp
  have m: "Min (f ` set xs) = f h"
    by (rule Min_eqI) (use le hin in auto)
  have "filter (\<lambda>x. f x = f h) xs = filter (\<lambda>x. f x = f h) ?ys"
    by (rule sort_key_stable [symmetric])
  also have "\<dots> = h # filter (\<lambda>x. f x = f h) t" by (simp add: ys)
  finally show ?thesis by (simp add: m ys)
qed

lemma best_by_purpose_sort:
  "ds \<noteq> [] \<Longrightarrow> hd (sort_key rank_of ds) = best_by_purpose ds"
  by (simp add: hd_sort_key best_by_purpose_def)

lemma best_by_purpose_min:
  assumes "ds \<noteq> []"
  shows "best_by_purpose ds \<in> set ds \<and> (\<forall>d \<in> set ds. rank_of (best_by_purpose ds) \<le> rank_of d)"
proof -
  let ?m = "Min (rank_of ` set ds)"
  from assms have "?m \<in> rank_of ` set ds" by (intro Min_in) auto
  then have ne: "filter (\<lambda>d. rank_of d = ?m) ds \<noteq> []"
    by (auto simp: filter_empty_conv)
  then have "best_by_purpose ds \<in> set (filter (\<lambda>d. rank_of d = ?m) ds)"
    unfolding best_by_purpose_def by (rule hd_in_set)
  then have "best_by_purpose ds \<in> set ds" and "rank_of (best_by_purpose ds) = ?m" by auto
  then show ?thesis by (auto intro: Min_le)
qed

lemma prioritize_table_spec:
  assumes "\<forall>d \<in> set ds. purpose_rank d \<noteq> None"
  shows "prioritize_table ds = Some (table_selection ds)"
proof (cases "ds = []")
  case True
  then show ?thesis by (simp add: prioritize_table_def table_selection_def)
next
  case False
  let ?sorted = "sort_key rank_of ds"
  let ?b = "best_by_purpose ds"
  from assms have ok: "\<not> list_ex (\<lambda>d. purpose_rank d = None) ds"
    by (simp add: list_ex_iff)
  from False have "?sorted \<noteq> []" by (metis length_sort length_0_conv)
  then obtain t where sorted: "?sorted = ?b # t"
    using best_by_purpose_sort [OF False] by (cases ?sorted) auto
  have js: "filter is_json_doc ?sorted = sort_key rank_of (filter is_json_doc ds)"
    by (rule filter_sort)
  show ?thesis
  proof (cases "filter is_json_doc ds = []")
    case True
    then have "filter is_json_doc ?sorted = []" by (simp add: js)
    with ok sorted True False show ?thesis
      by (simp add: prioritize_table_def table_selection_def Let_def)
  next
    case nonempty: False
    let ?j = "best_by_purpose (filter is_json_doc ds)"
    from nonempty have "sort_key rank_of (filter is_json_doc ds) \<noteq> []"
      by (metis length_sort length_0_conv)
    then obtain u where "sort_key rank_of (filter is_json_doc ds) = ?j # u"
      using best_by_purpose_sort [OF nonempty]
      by (cases "sort_key rank_of (filter is_json_doc ds)") auto
    with js have fj: "filter is_json_doc ?sorted = ?j # u" by simp
    have jj: "is_json_doc ?j"
      using best_by_purpose_min [OF nonempty] by auto
    show ?thesis
    proof (cases "is_json_doc ?b")
      case True
      with sorted fj have "?j = ?b" by simp
      with ok sorted fj True False show ?thesis
        by (simp add: prioritize_table_def table_selection_def Let_def)
    next
      case False
      with jj have "?j \<noteq> ?b" by auto
      with ok sorted fj False nonempty \<open>ds \<noteq> []\<close> show ?thesis
        by (simp add: prioritize_table_def table_selection_def Let_def)
    qed
  qed
qed

lemma table_groups_members:
  assumes "ds \<in> set (table_groups docs)"
  shows "ds \<noteq> [] \<and> (\<forall>d \<in> set ds. d \<in> set docs \<and> is_table_doc d \<and> group_key d = group_key (hd ds))"
proof -
  from assms obtain g where g: "g \<in> set (map group_key (filter is_table_doc docs))"
    and ds: "ds = filter (\<lambda>d. group_key d = g) (filter is_table_doc docs)"
    by (auto simp: table_groups_def set_first_occurrences)
  from g have ne: "ds \<noteq> []" by (auto simp: ds filter_empty_conv)
  then have "hd ds \<in> set ds" by (rule hd_in_set)
  then have "group_key (hd ds) = g" by (simp add: ds)
  with ne show ?thesis by (auto simp: ds)
qed

lemma prioritize_spec:
  assumes "\<forall>d \<in> set docs. is_table_doc d \<longrightarrow>
             dict_key (table_id_of d) \<noteq> None \<and> purpose_rank d \<noteq> None"
  shows "prioritize docs =
     Some (concat (map table_selection (table_groups docs)) @ filter (\<lambda>d. \<not> is_table_doc d) docs)"
proof -
  from assms have "\<forall>d \<in> set docs. is_table_doc d \<longrightarrow> dict_key (table_id_of d) \<noteq> None"
    by blast
  from group_docs_groups [OF this] obtain table_docs where
    run: "group_docs docs [] [] = Some (table_docs, filter (\<lambda>d. \<not> is_table_doc d) docs)"
    and groups: "map snd table_docs = table_groups docs"
    by blast
  have "prioritize_table (snd entry) = Some (table_selection (snd entry))"
    if "entry \<in> set table_docs" for entry
  proof (rule prioritize_table_spec)
    from that have "snd entry \<in> set (table_groups docs)"
      unfolding groups [symmetric] by simp
    from table_groups_members [OF this] assms
    show "\<forall>d \<in> set (snd entry). purpose_rank d \<noteq> None" by blast
  qed
  then have "map (\<lambda>entry. prioritize_table (snd entry)) table_docs =
      map (\<lambda>entry. Some (table_selection (snd entry))) table_docs"
    by (intro map_cong refl)
  then have "those (map (\<lambda>entry. prioritize_table (snd entry)) table_docs) =
      Some (map (\<lambda>entry. table_selection (snd entry)) table_docs)"
    by (simp only: those_map_Some)
  also have "map (\<lambda>entry. table_selection (snd entry)) table_docs =
      map table_selection (table_groups docs)"
    unfolding groups [symmetric] by (simp add: comp_def)
  finally show ?thesis
    by (simp add: prioritize_def run)
qed


lemma table_selection_tables:
  assumes "ds \<in> set (table_groups docs)" and "d \<in> set (table_selection ds)"
  shows "is_table_doc d"
proof -
  from table_groups_members [OF assms(1)]
  have ne: "ds \<noteq> []" and tab: "\<forall>x \<in> set ds. is_table_doc x" by auto
  from best_by_purpose_min [OF ne] have b: "best_by_purpose ds \<in> set ds" by simp
  show ?thesis
  proof (cases "filter is_json_doc ds = []")
    case True
    with assms(2) ne b tab show ?thesis by (auto simp: table_selection_def split: if_splits)
  next
    case False
    from best_by_purpose_min [OF False] have "best_by_purpose (filter is_json_doc ds) \<in> set ds"
      by auto
    with assms(2) ne b tab show ?thesis by (auto simp: table_selection_def split: if_splits)
  qed
qed

text \<open>
  Claim C6. Let the query be table-shaped, the collection the semantic one, the search
  return its results, the requested count \<open>k\<close> be non-negative, and the table id
  and purpose of every retrieved table chunk be hashable values. Then
  \<^verbatim>\<open>search_collection\<close> returns the first \<open>k\<close> entries of the selected
  table chunks followed by the plain-text chunks, so it has at most \<open>k\<close> entries and
  every selected table chunk stands before every plain-text chunk. The table chunks are
  grouped by table id; from each group the chunk with the best purpose rank
  (query, analysis, overview, display, in this order) is selected, the first such in
  retrieval order, and the json chunk of the group (the best ranked one) follows it
  exactly when the selected chunk is not a json chunk and the group has a json chunk.
\<close>

theorem table_query_prioritisation:
  assumes "is_table_query query"
    and "collection_name = SEMANTIC_COLLECTION_NAME prefix"
    and "search_documents collection_name query (k + 3) = Inr results"
    and "\<forall>d \<in> set (map to_document results). is_table_doc d \<longrightarrow>
           dict_key (table_id_of d) \<noteq> None \<and> purpose_rank d \<noteq> None"
    and "0 \<le> k"
  shows "search_collection prefix search_documents collection_name query k =
           take (nat k) (concat (map table_selection (table_groups (map to_document results)))
                         @ filter (\<lambda>d. \<not> is_table_doc d) (map to_document results))
    \<and> int (length (search_collection prefix search_documents collection_name query k)) \<le> k
    \<and> (\<forall>d \<in> set (concat (map table_selection (table_groups (map to_document results)))).
          is_table_doc d)
    \<and> (\<forall>ds \<in> set (table_groups (map to_document results)).
          ds \<noteq> []
          \<and> (\<forall>d \<in> set ds. d \<in> set (map to_document results) \<and> is_table_doc d
                \<and> group_key d = group_key (hd ds))
          \<and> best_by_purpose ds \<in> set ds
          \<and> (\<forall>d \<in> set ds. rank_of (best_by_purpose ds) \<le> rank_of d)
          \<and> table_selection ds =
              (if is_json_doc (best_by_purpose ds) \<or> filter is_json_doc ds = []
               then [best_by_purpose ds]
               else [best_by_purpose ds, best_by_purpose (filter is_json_doc ds)])
          \<and> (filter is_json_doc ds \<noteq> [] \<longrightarrow>
                best_by_purpose (filter is_json_doc ds) \<in> set ds
                \<and> is_json_doc (best_by_purpose (filter is_json_doc ds))))"
proof -
  let ?docs = "map to_document results"
  let ?sel = "concat (map table_selection (table_groups ?docs))"
  let ?text = "filter (\<lambda>d. \<not> is_table_doc d) ?docs"
  have pr: "prioritize ?docs = Some (?sel @ ?text)"
    using assms(4) by (rule prioritize_spec)
  have run: "search_collection prefix search_documents collection_name query k =
      take (nat k) (?sel @ ?text)"
    using assms(1,2,3,5) by (simp add: search_collection_def pr py_take_def)
  have len: "int (length (search_collection prefix search_documents collection_name query k)) \<le> k"
    unfolding run using assms(5) by simp
  have tabs: "\<forall>d \<in> set ?sel. is_table_doc d"
    using table_selection_tables by auto
  have groups: "ds \<noteq> []
          \<and> (\<forall>d \<in> set ds. d \<in> set ?docs \<and> is_table_doc d \<and> group_key d = group_key (hd ds))
          \<and> best_by_purpose ds \<in> set ds
          \<and> (\<forall>d \<in> set ds. rank_of (best_by_purpose ds) \<le> rank_of d)
          \<and> table_selection ds =
              (if is_json_doc (best_by_purpose ds) \<or> filter is_json_doc ds = []
               then [best_by_purpose ds]
               else [best_by_purpose ds, best_by_purpose (filter is_json_doc ds)])
          \<and> (filter is_json_doc ds \<noteq> [] \<longrightarrow>
                best_by_purpose (filter is_json_doc ds) \<in> set ds
                \<and> is_json_doc (best_by_purpose (filter is_json_doc ds)))"
    if "ds \<in> set (table_groups ?docs)" for ds
  proof -
    from table_groups_members [OF that]
    have ne: "ds \<noteq> []"
      and mem: "\<forall>d \<in> set ds. d \<in> set ?docs \<and> is_table_doc d \<and> group_key d = group_key (hd ds)"
      by blast+
    note best = best_by_purpose_min [OF ne]
    have sel: "table_selection ds =
              (if is_json_doc (best_by_purpose ds) \<or> filter is_json_doc ds = []
               then [best_by_purpose ds]
               else [best_by_purpose ds, best_by_purpose (filter is_json_doc ds)])"
      using ne by (simp add: table_selection_def)
    have js: "filter is_json_doc ds \<noteq> [] \<longrightarrow>
                best_by_purpose (filter is_json_doc ds) \<in> set ds
                \<and> is_json_doc (best_by_purpose (filter is_json_doc ds))"
      using best_by_purpose_min [of "filter is_json_doc ds"] by auto
    from ne mem best sel js show ?thesis by blast
  qed
  from run len tabs groups show ?thesis by blast
qed


theorem table_query_prioritisation_witness:
  "is_table_query ''What is the average revenue?''
   \<and> ''semantic'' = SEMANTIC_COLLECTION_NAME []
   \<and> sample_search ''semantic'' ''What is the average revenue?'' (5 + 3) = Inr sample_hits
   \<and> list_all (\<lambda>d. dict_key (table_id_of d) \<noteq> None \<and> purpose_rank d \<noteq> None)
        (map to_document sample_hits)
   \<and> (0::int) \<le> 5
   \<and> map page_content
        (search_collection [] sample_search ''semantic'' ''What is the average revenue?'' 5) =
       [''g1'', ''j1'', ''d2'', ''x'', ''y'']"
proof -
  have a: "is_table_query ''What is the average revenue?''" by code_simp
  have b: "''semantic'' = SEMANTIC_COLLECTION_NAME []" by (simp add: SEMANTIC_COLLECTION_NAME_def)
  have c: "sample_search ''semantic'' ''What is the average revenue?'' (5 + 3) = Inr sample_hits"
    by (simp add: sample_search_def)
  have d: "list_all (\<lambda>d. dict_key (table_id_of d) \<noteq> None \<and> purpose_rank d \<noteq> None)
        (map to_document sample_hits)"
    by code_simp
  then have d': "\<forall>d \<in> set (map to_document sample_hits). is_table_doc d \<longrightarrow>
           dict_key (table_id_of d) \<noteq> None \<and> purpose_rank d \<noteq> None"
    by (simp add: list_all_iff)
  have e: "(0::int) \<le> 5" by simp
  have v: "map page_content
      (take (nat 5) (concat (map table_selection (table_groups (map to_document sample_hits)))
                     @ filter (\<lambda>d. \<not> is_table_doc d) (map to_document sample_hits))) =
       [''g1'', ''j1'', ''d2'', ''x'', ''y'']"
    by code_simp
  from table_query_prioritisation [where query = "''What is the average revenue?''" and collection_name = "''semantic''"
      and prefix = "[]" and search_documents = sample_search and k = 5 and results = sample_hits,
      OF a b c d' e]
  have "search_collection [] sample_search ''semantic'' ''What is the average revenue?'' 5 =
      take (nat 5) (concat (map table_selection (table_groups (map to_document sample_hits)))
                    @ filter (\<lambda>d. \<not> is_table_doc d) (map to_document sample_hits))"
    by (rule conjunct1)
  with v have "map page_content
        (search_collection [] sample_search ''semantic'' ''What is the average revenue?'' 5) =
       [''g1'', ''j1'', ''d2'', ''x'', ''y'']"
    by (simp only:)
  with a b c d e show ?thesis by (intro conjI)
qed

end
